theory Spec2Isabelle
  imports Complex_Main "HOL-Library.AList"
begin

section \<open>Slot rows and JavaScript string helpers\<close>

text \<open>
  One row of the table \<^verbatim>\<open>fridge_slots\<close> created by \<^verbatim>\<open>dbInit\<close>:
  \<^verbatim>\<open>slot_no INT PRIMARY KEY, reserved_by_id TEXT, reserved_by_name TEXT,
  reserved_at TIMESTAMPTZ, ends_at TIMESTAMPTZ\<close>.  The four non-key columns are
  nullable, so they are options.  Timestamps are milliseconds since the epoch, the unit of
  \<^verbatim>\<open>Date.now()\<close>; every \<^verbatim>\<open>ends_at\<close> the program writes is a JavaScript date, and
  the only use of the database clock \<^verbatim>\<open>NOW()\<close> that is ever read back is the comparison
  \<^verbatim>\<open>ends_at <= NOW()\<close>, which is unchanged when \<^verbatim>\<open>NOW()\<close> is cut to milliseconds.
\<close>

type_synonym timestamp = int

record slot_row =
  slot_no :: int
  reserved_by_id :: "string option"
  reserved_by_name :: "string option"
  reserved_at :: "timestamp option"
  ends_at :: "timestamp option"

definition SLOT_COUNT :: int where
  "SLOT_COUNT = 24"

definition RESERVE_HOURS :: int where
  "RESERVE_HOURS = 8"

text \<open>
  \<^verbatim>\<open>String(n)\<close> and template interpolation of an integer-valued number: the decimal
  digits, with a minus sign for a negative number.  (JavaScript switches to exponent
  notation from \<open>10\<^sup>2\<^sup>1\<close> on; slot numbers and minute counts stay far below.)
\<close>

fun dec_digits :: "nat \<Rightarrow> string" where
  "dec_digits n =
     (if n < 10 then [''0123456789'' ! n]
      else dec_digits (n div 10) @ [''0123456789'' ! (n mod 10)])"

declare dec_digits.simps [simp del]

definition js_String :: "int \<Rightarrow> string" where
  "js_String i = (if i < 0 then CHR ''-'' # dec_digits (nat (- i)) else dec_digits (nat i))"

text \<open>\<^verbatim>\<open>function pad2(n) { return String(n).padStart(2, "0"); }\<close>\<close>

definition pad2 :: "int \<Rightarrow> string" where
  "pad2 n = (let s = js_String n in replicate (2 - length s) CHR ''0'' @ s)"

text \<open>\<^verbatim>\<open>Array.prototype.join\<close> on a list of strings.\<close>

fun js_join :: "string \<Rightarrow> string list \<Rightarrow> string" where
  "js_join sep [] = []"
| "js_join sep [x] = x"
| "js_join sep (x # y # ys) = x @ sep @ js_join sep (y # ys)"

text \<open>
  Truthiness of a nullable string (\<^verbatim>\<open>null\<close> and the empty string are falsy) as used by
  \<^verbatim>\<open>!s.reserved_by_id\<close>, \<^verbatim>\<open>s.reserved_by_name ? ... : ...\<close> and \<^verbatim>\<open>if (messageId)\<close>.
\<close>

definition js_truthy :: "string option \<Rightarrow> bool" where
  "js_truthy v = (case v of None \<Rightarrow> False | Some s \<Rightarrow> s \<noteq> [])"

section \<open>The snapshot renderer\<close>

text \<open>
  \<^verbatim>\<open>
  function humanRemaining(ms) {
    if (ms <= 0) return "expirat";
    const totalMin = Math.floor(ms / 60_000);
    const h = Math.floor(totalMin / 60);
    const m = totalMin % 60;
    if (h <= 0) return `peste ${m} minute`;
    if (m === 0) return `peste ${h} ore`;
    return `peste ${h} ore ${m} minute`;
  }
  \<close>
  The argument is a difference of two integral millisecond counts.  Past the first test it
  is positive, where \<^verbatim>\<open>Math.floor\<close> of the quotient is \<open>div\<close> and \<^verbatim>\<open>%\<close> is \<open>mod\<close>.
\<close>

definition humanRemaining :: "int \<Rightarrow> string" where
  "humanRemaining ms =
     (if ms \<le> 0 then ''expirat''
      else let totalMin = ms div 60000;
               h = totalMin div 60;
               m = totalMin mod 60
           in if h \<le> 0 then ''peste '' @ js_String m @ '' minute''
              else if m = 0 then ''peste '' @ js_String h @ '' ore''
              else ''peste '' @ js_String h @ '' ore '' @ js_String m @ '' minute'')"

text \<open>
  The strings of the panel that are not ASCII, as their UTF-8 bytes: the telephone, ice,
  green circle, red circle and hourglass emoji, and the letter a with breve.
\<close>

definition emoji_phone :: string where
  "emoji_phone = [CHR 0xF0, CHR 0x9F, CHR 0x93, CHR 0xB1]"

definition emoji_ice :: string where
  "emoji_ice = [CHR 0xF0, CHR 0x9F, CHR 0xA7, CHR 0x8A]"

definition emoji_green :: string where
  "emoji_green = [CHR 0xF0, CHR 0x9F, CHR 0x9F, CHR 0xA2]"

definition emoji_red :: string where
  "emoji_red = [CHR 0xF0, CHR 0x9F, CHR 0x94, CHR 0xB4]"

definition emoji_hourglass :: string where
  "emoji_hourglass = [CHR 0xE2, CHR 0x8F, CHR 0xB3]"

definition a_breve :: string where
  "a_breve = [CHR 0xC4, CHR 0x83]"

record embed =
  title :: string
  description :: string

datatype button_style = Primary | Secondary | Danger

record button =
  customId :: string
  label :: string
  style :: button_style

record panel_message =
  embeds :: "embed list"
  components :: "button list list"

section \<open>The world the bot runs in\<close>

text \<open>
  Everything outside a function that the source reads or writes: the two tables, the two
  clocks (\<^verbatim>\<open>NOW()\<close> of the database, \<^verbatim>\<open>Date.now()\<close> of the process), and the panel
  channel with its messages.  \<open>channel_text\<close> says whether
  \<^verbatim>\<open>client.channels.fetch(PANEL_CHANNEL_ID)\<close> yields a text channel; \<open>next_snowflake\<close>
  is the identifier Discord gives to the next message sent; \<open>store_queries\<close> counts the
  calls of \<^verbatim>\<open>pool.query\<close>.  A function that reads or writes the world takes it as its
  last argument and, when it writes, returns the new one.  The clocks do not move while one
  function runs; time passing is a change of the clock fields between calls.
\<close>

record world =
  fridge_slots :: "slot_row list"
  fridge_meta :: "(string \<times> string option) list"
  db_now :: timestamp
  js_now :: timestamp
  channel_text :: bool
  channel_messages :: "(string \<times> panel_message) list"
  next_snowflake :: nat
  store_queries :: nat

text \<open>
  \<^verbatim>\<open>UPDATE fridge_slots SET ... WHERE ... RETURNING ...\<close>: every row that satisfies the
  condition is replaced by its update; the statement returns the updated rows.
\<close>

definition sql_update ::
  "(slot_row \<Rightarrow> bool) \<Rightarrow> (slot_row \<Rightarrow> slot_row) \<Rightarrow> slot_row list \<Rightarrow> slot_row list \<times> slot_row list" where
  "sql_update cond upd rows =
     (map (\<lambda>r. if cond r then upd r else r) rows, map upd (filter cond rows))"

text \<open>\<^verbatim>\<open>SET reserved_by_id=NULL, reserved_by_name=NULL, reserved_at=NULL, ends_at=NULL\<close>\<close>

definition set_all_null :: "slot_row \<Rightarrow> slot_row" where
  "set_all_null r =
     r\<lparr>reserved_by_id := None, reserved_by_name := None, reserved_at := None, ends_at := None\<rparr>"

text \<open>\<^verbatim>\<open>WHERE ends_at IS NOT NULL AND ends_at <= NOW()\<close>\<close>

definition ends_at_passed :: "timestamp \<Rightarrow> slot_row \<Rightarrow> bool" where
  "ends_at_passed now r = (case ends_at r of None \<Rightarrow> False | Some e \<Rightarrow> e \<le> now)"

text \<open>
  \<^verbatim>\<open>dbInit\<close>: two \<^verbatim>\<open>CREATE TABLE IF NOT EXISTS\<close>, then for \<open>i\<close> from 1 to
  \<^verbatim>\<open>SLOT_COUNT\<close> an \<^verbatim>\<open>INSERT INTO fridge_slots(slot_no) VALUES(i) ON CONFLICT (slot_no)
  DO NOTHING\<close>.
\<close>

definition empty_slot :: "int \<Rightarrow> slot_row" where
  "empty_slot i =
     \<lparr>slot_no = i, reserved_by_id = None, reserved_by_name = None,
      reserved_at = None, ends_at = None\<rparr>"

definition insert_slot :: "int \<Rightarrow> world \<Rightarrow> world" where
  "insert_slot i w =
     w\<lparr>fridge_slots :=
          (if i \<in> slot_no ` set (fridge_slots w) then fridge_slots w
           else fridge_slots w @ [empty_slot i]),
       store_queries := store_queries w + 1\<rparr>"

definition dbInit :: "world \<Rightarrow> world" where
  "dbInit w = fold insert_slot [1..SLOT_COUNT] (w\<lparr>store_queries := store_queries w + 2\<rparr>)"

text \<open>
  \<^verbatim>\<open>getMeta(key)\<close>: \<^verbatim>\<open>SELECT v FROM fridge_meta WHERE k=$1\<close>, then
  \<^verbatim>\<open>r.rows[0]?.v ?? null\<close>.  \<^verbatim>\<open>setMeta(key, value)\<close>: insert, or on conflict update.
\<close>

definition getMeta :: "string \<Rightarrow> world \<Rightarrow> string option \<times> world" where
  "getMeta key w =
     (case map_of (fridge_meta w) key of None \<Rightarrow> None | Some v \<Rightarrow> v,
      w\<lparr>store_queries := store_queries w + 1\<rparr>)"

definition setMeta :: "string \<Rightarrow> string \<Rightarrow> world \<Rightarrow> world" where
  "setMeta key val w =
     w\<lparr>fridge_meta := AList.update key (Some val) (fridge_meta w),
       store_queries := store_queries w + 1\<rparr>"

text \<open>
  \<^verbatim>\<open>
  async function freeExpiredSlots() {
    await pool.query(`
      UPDATE fridge_slots
      SET reserved_by_id=NULL, reserved_by_name=NULL, reserved_at=NULL, ends_at=NULL
      WHERE ends_at IS NOT NULL AND ends_at <= NOW();
    `);
  }
  \<close>
\<close>

definition freeExpiredSlots :: "world \<Rightarrow> world" where
  "freeExpiredSlots w =
     w\<lparr>fridge_slots := fst (sql_update (ends_at_passed (db_now w)) set_all_null (fridge_slots w)),
       store_queries := store_queries w + 1\<rparr>"

text \<open>\<^verbatim>\<open>getSlots\<close>: all rows, \<^verbatim>\<open>ORDER BY slot_no ASC\<close>.\<close>

definition getSlots :: "world \<Rightarrow> slot_row list \<times> world" where
  "getSlots w = (sort_key slot_no (fridge_slots w), w\<lparr>store_queries := store_queries w + 1\<rparr>)"

text \<open>
  \<^verbatim>\<open>
  async function reserveSlot(slotNo, userId, userName) {
    const endsAt = new Date(Date.now() + RESERVE_HOURS * 60 * 60 * 1000);
    const r = await pool.query(`
      UPDATE fridge_slots
      SET reserved_by_id=$1, reserved_by_name=$2, reserved_at=NOW(), ends_at=$3
      WHERE slot_no=$4 AND reserved_by_id IS NULL
      RETURNING slot_no`, [userId, userName, endsAt, slotNo]);
    return r.rowCount === 1;
  }
  \<close>
  The same in both variants of the program.  The user id is a Discord snowflake and the
  name a display name: both are strings, never \<^verbatim>\<open>null\<close>.
\<close>

definition set_reserved :: "string \<Rightarrow> string \<Rightarrow> timestamp \<Rightarrow> timestamp \<Rightarrow> slot_row \<Rightarrow> slot_row" where
  "set_reserved userId userName now endsAt r =
     r\<lparr>reserved_by_id := Some userId, reserved_by_name := Some userName,
       reserved_at := Some now, ends_at := Some endsAt\<rparr>"

definition reserveSlot :: "int \<Rightarrow> string \<Rightarrow> string \<Rightarrow> world \<Rightarrow> bool \<times> world" where
  "reserveSlot slotNo userId userName w =
     (let endsAt = js_now w + RESERVE_HOURS * 60 * 60 * 1000;
          r = sql_update (\<lambda>row. slot_no row = slotNo \<and> reserved_by_id row = None)
                (set_reserved userId userName (db_now w) endsAt)
                (fridge_slots w)
      in (length (snd r) = 1,
          w\<lparr>fridge_slots := fst r, store_queries := store_queries w + 1\<rparr>))"

text \<open>
  \<^verbatim>\<open>
  async function getUserReservedSlots(userId) {
    const r = await pool.query(`
      SELECT slot_no, ends_at FROM fridge_slots
      WHERE reserved_by_id=$1 ORDER BY slot_no ASC`, [userId]);
    return r.rows;
  }
  \<close>
\<close>

definition getUserReservedSlots :: "string \<Rightarrow> world \<Rightarrow> (int \<times> timestamp option) list \<times> world" where
  "getUserReservedSlots userId w =
     (map (\<lambda>r. (slot_no r, ends_at r))
        (sort_key slot_no (filter (\<lambda>r. reserved_by_id r = Some userId) (fridge_slots w))),
      w\<lparr>store_queries := store_queries w + 1\<rparr>)"

text \<open>
  \<^verbatim>\<open>
  async function releaseSpecificSlot(slotNo, userId) {
    const r = await pool.query(`
      UPDATE fridge_slots
      SET reserved_by_id=NULL, reserved_by_name=NULL, reserved_at=NULL, ends_at=NULL
      WHERE slot_no=$1 AND reserved_by_id=$2
      RETURNING slot_no`, [slotNo, userId]);
    return r.rows[0]?.slot_no ?? null;
  }
  \<close>
\<close>

definition releaseSpecificSlot :: "int \<Rightarrow> string \<Rightarrow> world \<Rightarrow> int option \<times> world" where
  "releaseSpecificSlot slotNo userId w =
     (let r = sql_update (\<lambda>row. slot_no row = slotNo \<and> reserved_by_id row = Some userId)
                set_all_null (fridge_slots w)
      in (case snd r of [] \<Rightarrow> None | row # _ \<Rightarrow> Some (slot_no row),
          w\<lparr>fridge_slots := fst r, store_queries := store_queries w + 1\<rparr>))"

subsection \<open>Rendering the panel\<close>

text \<open>
  One line of the panel, the body of the loop of \<^verbatim>\<open>buildPanelEmbed\<close>:
  \<^verbatim>\<open>
  const label = `[${pad2(s.slot_no)}]`;
  if (!s.reserved_by_id || !s.ends_at) {
    lines.push(`${label} (green) Liber`);
  } else {
    const ends = new Date(s.ends_at).getTime();
    const remaining = humanRemaining(ends - now);
    const name = s.reserved_by_name ? s.reserved_by_name : "Necunoscut";
    lines.push(`${label} (red) ${name}  (hourglass) ${remaining}`);
  }
  \<close>
  \<^verbatim>\<open>s.ends_at\<close> is \<^verbatim>\<open>null\<close> or a date object, and a date object is truthy.
\<close>

definition slot_line :: "timestamp \<Rightarrow> slot_row \<Rightarrow> string" where
  "slot_line now s =
     (let label = ''['' @ pad2 (slot_no s) @ '']'' in
      case ends_at s of
        None \<Rightarrow> label @ '' '' @ emoji_green @ '' Liber''
      | Some ends \<Rightarrow>
          if \<not> js_truthy (reserved_by_id s) then label @ '' '' @ emoji_green @ '' Liber''
          else let remaining = humanRemaining (ends - now);
                   name = (case reserved_by_name s of
                             None \<Rightarrow> ''Necunoscut''
                           | Some nm \<Rightarrow> if nm = [] then ''Necunoscut'' else nm)
               in label @ '' '' @ emoji_red @ '' '' @ name @ ''  '' @ emoji_hourglass @ '' '' @
                  remaining)"

text \<open>
  \<^verbatim>\<open>buildPanelEmbed(slots)\<close> of the multi-slot variant: four header lines, one line per
  slot, joined by newlines inside a code fence.  It reads the clock (\<^verbatim>\<open>Date.now()\<close>) and
  writes nothing but its own local array.
\<close>

definition buildPanelEmbed :: "slot_row list \<Rightarrow> world \<Rightarrow> embed \<times> world" where
  "buildPanelEmbed slots w =
     (let lines = [emoji_phone @ '' Sistem automatizat. Selecteaz'' @ a_breve @
                     '' un frigider pentru rezervare.'',
                   [],
                   emoji_ice @ '' Status Frigidere'',
                   []];
          now = js_now w;
          lines = lines @ map (slot_line now) slots
      in (\<lparr>title = ''Garaj Operations Panel'',
           description = ''```'' @ js_join [CHR 0x0A] lines @ ''```''\<rparr>, w))"

definition buildControlsRow :: "button list" where
  "buildControlsRow =
     [\<lparr>customId = ''fridge_reserve'', label = ''Rezerv'' @ a_breve @ '' (8h)'', style = Primary\<rparr>,
      \<lparr>customId = ''fridge_release'', label = ''Elibereaz'' @ a_breve @ '' (aleg)'', style = Danger\<rparr>,
      \<lparr>customId = ''fridge_refresh'', label = ''Refresh'', style = Secondary\<rparr>]"

subsection \<open>Publishing the panel\<close>

text \<open>
  \<^verbatim>\<open>channel.messages.fetch(id).catch(() => null)\<close> finds a message or gives \<^verbatim>\<open>null\<close>;
  \<^verbatim>\<open>msg.edit(payload)\<close> replaces the content of that message; \<^verbatim>\<open>channel.send(payload)\<close>
  adds a message under the next identifier and returns the identifier.
\<close>

definition message_exists :: "string \<Rightarrow> world \<Rightarrow> bool" where
  "message_exists mid w = (mid \<in> fst ` set (channel_messages w))"

definition message_edit :: "string \<Rightarrow> panel_message \<Rightarrow> world \<Rightarrow> world" where
  "message_edit mid payload w =
     w\<lparr>channel_messages :=
          map (\<lambda>(i, m). if i = mid then (i, payload) else (i, m)) (channel_messages w)\<rparr>"

definition channel_send :: "panel_message \<Rightarrow> world \<Rightarrow> string \<times> world" where
  "channel_send payload w =
     (let mid = dec_digits (next_snowflake w)
      in (mid, w\<lparr>channel_messages := channel_messages w @ [(mid, payload)],
                 next_snowflake := Suc (next_snowflake w)\<rparr>))"

text \<open>
  \<^verbatim>\<open>
  async function upsertPanelMessage() {
    const channel = await client.channels.fetch(PANEL_CHANNEL_ID).catch(() => null);
    if (!channel || !channel.isTextBased()) { console.error(...); return; }
    await freeExpiredSlots();
    const slots = await getSlots();
    const embed = buildPanelEmbed(slots);
    const components = [buildControlsRow()];
    const messageId = await getMeta("panel_message_id");
    if (messageId) {
      const msg = await channel.messages.fetch(messageId).catch(() => null);
      if (msg) { await msg.edit({ embeds: [embed], components }); return; }
    }
    const sent = await channel.send({ embeds: [embed], components });
    await setMeta("panel_message_id", sent.id);
  }
  \<close>
\<close>

definition upsertPanelMessage :: "world \<Rightarrow> world" where
  "upsertPanelMessage w =
     (if \<not> channel_text w then w
      else
        let w1 = freeExpiredSlots w;
            (slots, w2) = getSlots w1;
            (embed, w3) = buildPanelEmbed slots w2;
            payload = \<lparr>embeds = [embed], components = [buildControlsRow]\<rparr>;
            (messageId, w4) = getMeta ''panel_message_id'' w3
        in case messageId of
             None \<Rightarrow> (let (sent, w5) = channel_send payload w4
                       in setMeta ''panel_message_id'' sent w5)
           | Some mid \<Rightarrow>
               if mid \<noteq> [] \<and> message_exists mid w4 then message_edit mid payload w4
               else (let (sent, w5) = channel_send payload w4
                     in setMeta ''panel_message_id'' sent w5))"

subsection \<open>The interaction handlers of the multi-slot variant\<close>

text \<open>
  What \<^verbatim>\<open>Number(interaction.values[0])\<close> can be: not a number, an infinity (with its sign,
  \<open>True\<close> for the positive one) or a finite value.  The handlers only test and compare
  it.  \<^verbatim>\<open>Number.isInteger\<close> holds of the finite values without a fraction; a comparison
  with \<^verbatim>\<open>NaN\<close> is false.
\<close>

datatype js_number = NaN | Infinity bool | Finite rat

definition js_isInteger :: "js_number \<Rightarrow> bool" where
  "js_isInteger v = (case v of Finite q \<Rightarrow> of_int \<lfloor>q\<rfloor> = q | _ \<Rightarrow> False)"

definition js_less :: "js_number \<Rightarrow> int \<Rightarrow> bool" where
  "js_less v k = (case v of NaN \<Rightarrow> False | Infinity pos \<Rightarrow> \<not> pos | Finite q \<Rightarrow> q < of_int k)"

definition js_greater :: "js_number \<Rightarrow> int \<Rightarrow> bool" where
  "js_greater v k = (case v of NaN \<Rightarrow> False | Infinity pos \<Rightarrow> pos | Finite q \<Rightarrow> of_int k < q)"

text \<open>The slot number an integer-valued number stands for (used only past the validation).\<close>

definition js_int_value :: "js_number \<Rightarrow> int" where
  "js_int_value v = (case v of Finite q \<Rightarrow> \<lfloor>q\<rfloor> | _ \<Rightarrow> 0)"

text \<open>
  \<^verbatim>\<open>!Number.isInteger(slotNo) || slotNo < 1 || slotNo > SLOT_COUNT\<close>, the test of both
  select-menu handlers.
\<close>

definition slot_invalid :: "js_number \<Rightarrow> bool" where
  "slot_invalid slotNo =
     (\<not> js_isInteger slotNo \<or> js_less slotNo 1 \<or> js_greater slotNo SLOT_COUNT)"

text \<open>
  The answers a handler gives to the user, one constructor per message of the source:
  \<open>SlotInvalid\<close> is "Slot invalid.", \<open>AlreadyReserved n\<close> "Frigiderul n a fost rezervat
  deja. ...", \<open>ReservedOk n\<close> "Ai rezervat frigiderul n ...", \<open>CannotRelease n\<close> "Nu poti
  elibera frigiderul n ...", \<open>ReleasedOk n\<close> "Ai eliberat frigiderul n.", \<open>NoFreeSlots\<close>
  "Nu exista frigidere libere acum.", \<open>NothingReserved\<close> "Nu ai niciun frigider rezervat.";
  \<open>OfferFree\<close> and \<open>OfferMine\<close> are the two select menus, with the slot numbers of
  their options.
\<close>

datatype reply =
    SlotInvalid
  | AlreadyReserved int
  | ReservedOk int
  | CannotRelease int
  | ReleasedOk int
  | NoFreeSlots
  | OfferFree "int list"
  | NothingReserved
  | OfferMine "int list"

text \<open>
  The button \<^verbatim>\<open>fridge_reserve\<close>:
  \<^verbatim>\<open>
  await freeExpiredSlots();
  const slots = await getSlots();
  const freeSlots = slots.filter((s) => !s.reserved_by_id);
  if (freeSlots.length === 0) { reply(no free slots); return; }
  ... addOptions(freeSlots.slice(0, 25).map((s) => ({ value: String(s.slot_no), ... })))
  \<close>
\<close>

definition fridge_reserve :: "world \<Rightarrow> reply \<times> world" where
  "fridge_reserve w =
     (let w1 = freeExpiredSlots w;
          (slots, w2) = getSlots w1;
          freeSlots = filter (\<lambda>s. \<not> js_truthy (reserved_by_id s)) slots
      in if length freeSlots = 0 then (NoFreeSlots, w2)
         else (OfferFree (map slot_no (take 25 freeSlots)), w2))"

text \<open>
  The button \<^verbatim>\<open>fridge_release\<close> of the multi-slot variant:
  \<^verbatim>\<open>
  await freeExpiredSlots();
  const mine = await getUserReservedSlots(interaction.user.id);
  if (mine.length === 0) { editReply(nothing reserved); return; }
  ... addOptions(mine.slice(0, 25).map((s) => ({ value: String(s.slot_no), ... })))
  \<close>
\<close>

definition fridge_release :: "string \<Rightarrow> world \<Rightarrow> reply \<times> world" where
  "fridge_release userId w =
     (let w1 = freeExpiredSlots w;
          (mine, w2) = getUserReservedSlots userId w1
      in if length mine = 0 then (NothingReserved, w2)
         else (OfferMine (map fst (take 25 mine)), w2))"

text \<open>
  The select menu \<^verbatim>\<open>fridge_pick_slot\<close>:
  \<^verbatim>\<open>
  const slotNo = Number(interaction.values[0]);
  if (!Number.isInteger(slotNo) || slotNo < 1 || slotNo > SLOT_COUNT) {
    await interaction.reply({ content: "Slot invalid.", ephemeral: true });
    return;
  }
  await interaction.deferUpdate();
  await freeExpiredSlots();
  const displayName = interaction.member?.displayName || interaction.user.username;
  const ok = await reserveSlot(slotNo, interaction.user.id, displayName);
  if (!ok) { editReply(already reserved); return; }
  await upsertPanelMessage();
  editReply(reserved);
  \<close>
\<close>

definition fridge_pick_slot :: "js_number \<Rightarrow> string \<Rightarrow> string \<Rightarrow> world \<Rightarrow> reply \<times> world" where
  "fridge_pick_slot slotNo userId displayName w =
     (if slot_invalid slotNo then (SlotInvalid, w)
      else
        let n = js_int_value slotNo;
            w1 = freeExpiredSlots w;
            (ok, w2) = reserveSlot n userId displayName w1
        in if \<not> ok then (AlreadyReserved n, w2)
           else (ReservedOk n, upsertPanelMessage w2))"

text \<open>
  The select menu \<^verbatim>\<open>fridge_release_pick\<close>:
  \<^verbatim>\<open>
  const slotNo = Number(interaction.values[0]);
  if (!Number.isInteger(slotNo) || slotNo < 1 || slotNo > SLOT_COUNT) {
    await interaction.reply({ content: "Slot invalid.", ephemeral: true });
    return;
  }
  await interaction.deferUpdate();
  await freeExpiredSlots();
  const released = await releaseSpecificSlot(slotNo, interaction.user.id);
  if (!released) { editReply(cannot release); return; }
  await upsertPanelMessage();
  editReply(released);
  \<close>
  \<^verbatim>\<open>!released\<close> holds of \<^verbatim>\<open>null\<close> and of the number 0.
\<close>

definition fridge_release_pick :: "js_number \<Rightarrow> string \<Rightarrow> world \<Rightarrow> reply \<times> world" where
  "fridge_release_pick slotNo userId w =
     (if slot_invalid slotNo then (SlotInvalid, w)
      else
        let n = js_int_value slotNo;
            w1 = freeExpiredSlots w;
            (released, w2) = releaseSpecificSlot n userId w1
        in case released of
             None \<Rightarrow> (CannotRelease n, w2)
           | Some k \<Rightarrow> if k = 0 then (CannotRelease n, w2)
                       else (ReleasedOk k, upsertPanelMessage w2))"

subsection \<open>The release button of the single-slot variant\<close>

text \<open>
  The names bound at the top level of \<^verbatim>\<open>index.js\<close>: the twelve names destructured from
  the two \<^verbatim>\<open>require\<close> calls, the constants and the function declarations, in the order
  of the file.  The file loads no other module of the repository.
\<close>

definition index_js_bindings :: "string list" where
  "index_js_bindings =
     [''Client'', ''GatewayIntentBits'', ''REST'', ''Routes'', ''SlashCommandBuilder'',
      ''ActionRowBuilder'', ''ButtonBuilder'', ''ButtonStyle'', ''StringSelectMenuBuilder'',
      ''Events'', ''EmbedBuilder'', ''Pool'',
      ''SLOT_COUNT'', ''RESERVE_HOURS'', ''REFRESH_EVERY_MS'', ''mustEnv'',
      ''TOKEN'', ''CLIENT_ID'', ''GUILD_ID'', ''PANEL_CHANNEL_ID'', ''DATABASE_URL'',
      ''pool'', ''dbInit'', ''getMeta'', ''setMeta'', ''freeExpiredSlots'', ''getSlots'',
      ''reserveSlot'', ''client'', ''pad2'', ''humanRemaining'', ''buildPanelEmbed'',
      ''buildControlsRow'', ''upsertPanelMessage'', ''registerCommands'']"

datatype js_error = ReferenceError string

text \<open>
  The button \<^verbatim>\<open>fridge_release\<close> of \<^verbatim>\<open>index.js\<close>:
  \<^verbatim>\<open>
  await interaction.deferReply({ ephemeral: true });
  await freeExpiredSlots();
  const releasedSlot = await releaseUserSlot(interaction.user.id);
  if (!releasedSlot) { editReply(nothing reserved); return; }
  await upsertPanelMessage();
  editReply(released);
  \<close>
  Evaluating a name that has no binding throws a \<^verbatim>\<open>ReferenceError\<close>, which the
  \<^verbatim>\<open>catch\<close> of the handler logs.  \<open>impl\<close> stands for what the call would run if the
  name were bound.
\<close>

definition index_fridge_release ::
  "(string \<Rightarrow> world \<Rightarrow> int option \<times> world) \<Rightarrow> string \<Rightarrow> world \<Rightarrow> (js_error + reply) \<times> world" where
  "index_fridge_release impl userId w =
     (let w1 = freeExpiredSlots w
      in if ''releaseUserSlot'' \<in> set index_js_bindings
         then
           let (releasedSlot, w2) = impl userId w1
           in case releasedSlot of
                None \<Rightarrow> (Inr NothingReserved, w2)
              | Some k \<Rightarrow> if k = 0 then (Inr NothingReserved, w2)
                          else (Inr (ReleasedOk k), upsertPanelMessage w2)
         else (Inl (ReferenceError ''releaseUserSlot''), w1))"

subsection \<open>The document a publication renders\<close>

text \<open>
  The payload \<^verbatim>\<open>{ embeds: [embed], components }\<close> that \<^verbatim>\<open>upsertPanelMessage\<close> builds in
  a world, by the same three steps: sweep, read all rows, render.
\<close>

definition panel_payload :: "world \<Rightarrow> panel_message" where
  "panel_payload w =
     (let w1 = freeExpiredSlots w;
          (slots, w2) = getSlots w1;
          (embed, w3) = buildPanelEmbed slots w2
      in \<lparr>embeds = [embed], components = [buildControlsRow]\<rparr>)"

subsection \<open>An example world\<close>

text \<open>
  A fresh installation: empty tables, a text channel without messages, clocks at 0.
\<close>

definition fresh_world :: world where
  "fresh_world =
     \<lparr>fridge_slots = [],
      fridge_meta = [],
      db_now = 0,
      js_now = 0,
      channel_text = True,
      channel_messages = [],
      next_snowflake = 1,
      store_queries = 0\<rparr>"

text \<open>
  A world the program reaches from there: after \<^verbatim>\<open>dbInit\<close>, alice claims slot 1 at
  time 0 and slot 2 one hour later, bob claims slot 3 after two hours, and the clocks now
  read 8 h 20 min (in milliseconds).  The lease of slot 1 ended at 8 h and has not been
  swept; slots 2 and 3 are held until 9 h and 10 h; slots 4 to 24 are free.  No panel has
  been published.
\<close>

definition example_world :: world where
  "example_world =
     (let w1 = dbInit fresh_world;
          w2 = snd (reserveSlot 1 ''alice'' ''Alice'' w1);
          w3 = snd (reserveSlot 2 ''alice'' ''Alice'' (w2\<lparr>db_now := 3600000, js_now := 3600000\<rparr>));
          w4 = snd (reserveSlot 3 ''bob'' ''Bob'' (w3\<lparr>db_now := 7200000, js_now := 7200000\<rparr>))
      in w4\<lparr>db_now := 30000000, js_now := 30000000\<rparr>)"

subsection \<open>What every row the program writes satisfies\<close>

text \<open>
  \<^verbatim>\<open>slot_no\<close> is the primary key, so no two rows share it; and the statements of the
  program set \<^verbatim>\<open>reserved_by_id\<close> and \<^verbatim>\<open>ends_at\<close> together and clear them
  together, so a row with a holder has an end date.
\<close>

definition slots_ok :: "world \<Rightarrow> bool" where
  "slots_ok w =
     (distinct (map slot_no (fridge_slots w)) \<and>
      (\<forall>r\<in>set (fridge_slots w). reserved_by_id r \<noteq> None \<longrightarrow> ends_at r \<noteq> None))"

section \<open>Basic facts about the statements\<close>

lemma dec_digits_small: "n < 10 \<Longrightarrow> dec_digits n = [''0123456789'' ! n]"
  by (simp add: dec_digits.simps)

lemma dec_digits_nonempty [simp]: "dec_digits n \<noteq> []"
  by (subst dec_digits.simps) simp

lemma set_all_null_fields [simp]:
  "slot_no (set_all_null r) = slot_no r"
  "reserved_by_id (set_all_null r) = None"
  "reserved_by_name (set_all_null r) = None"
  "reserved_at (set_all_null r) = None"
  "ends_at (set_all_null r) = None"
  by (simp_all add: set_all_null_def)

lemma set_reserved_fields [simp]:
  "slot_no (set_reserved u n t e r) = slot_no r"
  "reserved_by_id (set_reserved u n t e r) = Some u"
  "reserved_by_name (set_reserved u n t e r) = Some n"
  "reserved_at (set_reserved u n t e r) = Some t"
  "ends_at (set_reserved u n t e r) = Some e"
  by (simp_all add: set_reserved_def)

lemma ends_at_passed_null [simp]: "\<not> ends_at_passed t (set_all_null r)"
  by (simp add: ends_at_passed_def)

lemma sql_update_fst: "fst (sql_update c u rows) = map (\<lambda>r. if c r then u r else r) rows"
  by (simp add: sql_update_def)

lemma sql_update_snd: "snd (sql_update c u rows) = map u (filter c rows)"
  by (simp add: sql_update_def)

lemma sql_update_none: "\<forall>r\<in>set rows. \<not> c r \<Longrightarrow> sql_update c u rows = (rows, [])"
proof -
  assume h: "\<forall>r\<in>set rows. \<not> c r"
  then have "map (\<lambda>r. if c r then u r else r) rows = rows"
    by (intro map_idI) simp
  moreover from h have "filter c rows = []"
    by (simp add: filter_empty_conv)
  ultimately show ?thesis by (simp add: sql_update_def)
qed

lemma in_sql_update:
  "r \<in> set (fst (sql_update c u rows)) \<Longrightarrow> \<exists>r0\<in>set rows. r = (if c r0 then u r0 else r0)"
  by (auto simp: sql_update_def)

lemma sql_update_keys:
  "(\<And>r. k (u r) = k r) \<Longrightarrow> map k (fst (sql_update c u rows)) = map k rows"
  by (simp add: sql_update_def)

lemma filter_key_le1:
  "distinct (map f xs) \<Longrightarrow> length (filter (\<lambda>r. f r = s \<and> Q r) xs) \<le> 1"
  by (induction xs) (auto simp: filter_empty_conv image_iff)

lemma filter_key_eq1:
  "distinct (map f xs) \<Longrightarrow>
     (length (filter (\<lambda>r. f r = s \<and> Q r) xs) = Suc 0) = (\<exists>r\<in>set xs. f r = s \<and> Q r)"
proof -
  assume d: "distinct (map f xs)"
  have "(\<exists>r\<in>set xs. f r = s \<and> Q r) = (filter (\<lambda>r. f r = s \<and> Q r) xs \<noteq> [])"
    by (auto simp: filter_empty_conv)
  also have "\<dots> = (length (filter (\<lambda>r. f r = s \<and> Q r) xs) = Suc 0)"
    using filter_key_le1 [OF d, of s Q]
    by (cases "filter (\<lambda>r. f r = s \<and> Q r) xs") auto
  finally show ?thesis by simp
qed

lemma pk_unique:
  "distinct (map slot_no rows) \<Longrightarrow> r \<in> set rows \<Longrightarrow> r' \<in> set rows \<Longrightarrow>
     slot_no r = slot_no r' \<Longrightarrow> r = r'"
  by (auto simp: distinct_map dest: inj_onD)

lemma freeExpiredSlots_fields [simp]:
  "fridge_meta (freeExpiredSlots w) = fridge_meta w"
  "db_now (freeExpiredSlots w) = db_now w"
  "js_now (freeExpiredSlots w) = js_now w"
  "channel_text (freeExpiredSlots w) = channel_text w"
  "channel_messages (freeExpiredSlots w) = channel_messages w"
  "next_snowflake (freeExpiredSlots w) = next_snowflake w"
  "store_queries (freeExpiredSlots w) = store_queries w + 1"
  by (simp_all add: freeExpiredSlots_def)

lemma freeExpiredSlots_rows:
  "fridge_slots (freeExpiredSlots w) =
     map (\<lambda>r. if ends_at_passed (db_now w) r then set_all_null r else r) (fridge_slots w)"
  by (simp add: freeExpiredSlots_def sql_update_def)

lemma freeExpiredSlots_origin:
  assumes "r \<in> set (fridge_slots (freeExpiredSlots w))"
  shows "\<exists>r0\<in>set (fridge_slots w). slot_no r0 = slot_no r \<and>
           r = (if ends_at_passed (db_now w) r0 then set_all_null r0 else r0)"
proof -
  from assms(1) obtain r0 where r0: "r0 \<in> set (fridge_slots w)" and
    req: "r = (if ends_at_passed (db_now w) r0 then set_all_null r0 else r0)"
    unfolding freeExpiredSlots_def by (auto dest: in_sql_update)
  then have "slot_no r0 = slot_no r"
    by (cases "ends_at_passed (db_now w) r0") simp_all
  with r0 req show ?thesis by blast
qed

lemma sweep_map_idem:
  "map (\<lambda>r. if ends_at_passed t r then set_all_null r else r)
     (map (\<lambda>r. if ends_at_passed t r then set_all_null r else r) rows) =
   map (\<lambda>r. if ends_at_passed t r then set_all_null r else r) rows"
  by (simp add: o_def cong: if_cong)

lemma freeExpiredSlots_idem_rows:
  "fridge_slots (freeExpiredSlots (freeExpiredSlots w)) = fridge_slots (freeExpiredSlots w)"
proof -
  have "db_now (freeExpiredSlots w) = db_now w"
    by (simp add: freeExpiredSlots_def)
  then show ?thesis
    by (simp add: freeExpiredSlots_rows o_def cong: if_cong)
qed

lemma dbInit_fresh:
  "dbInit fresh_world = fresh_world\<lparr>fridge_slots := map empty_slot [1..24], store_queries := 26\<rparr>"
  by (simp add: dbInit_def fresh_world_def insert_slot_def SLOT_COUNT_def upto_rec1 empty_slot_def)

lemma example_world_eq:
  "example_world =
     \<lparr>fridge_slots =
        [\<lparr>slot_no = 1, reserved_by_id = Some ''alice'', reserved_by_name = Some ''Alice'',
          reserved_at = Some 0, ends_at = Some 28800000\<rparr>,
         \<lparr>slot_no = 2, reserved_by_id = Some ''alice'', reserved_by_name = Some ''Alice'',
          reserved_at = Some 3600000, ends_at = Some 32400000\<rparr>,
         \<lparr>slot_no = 3, reserved_by_id = Some ''bob'', reserved_by_name = Some ''Bob'',
          reserved_at = Some 7200000, ends_at = Some 36000000\<rparr>] @
        map empty_slot [4..24],
      fridge_meta = [],
      db_now = 30000000,
      js_now = 30000000,
      channel_text = True,
      channel_messages = [],
      next_snowflake = 1,
      store_queries = 29\<rparr>"
  unfolding example_world_def dbInit_fresh
  by (simp add: Let_def reserveSlot_def sql_update_def
      set_reserved_def RESERVE_HOURS_def fresh_world_def upto_rec1 empty_slot_def)

lemma example_rows_pk: "distinct (map slot_no (fridge_slots example_world))"
  by (simp add: example_world_eq upto_rec1 empty_slot_def)

lemma example_slot4_free:
  "\<exists>r\<in>set (fridge_slots example_world). slot_no r = 4 \<and> reserved_by_id r = None"
  by (simp add: example_world_eq upto_rec1 empty_slot_def)

lemma example_alice_holds:
  "fst (getUserReservedSlots ''alice'' example_world) = [(1, Some 28800000), (2, Some 32400000)]"
  by (simp add: getUserReservedSlots_def example_world_eq upto_rec1 empty_slot_def)

section \<open>Claiming a slot\<close>

lemma reserveSlot_fst:
  "fst (reserveSlot s u n w) =
     (length (filter (\<lambda>r. slot_no r = s \<and> reserved_by_id r = None) (fridge_slots w)) = Suc 0)"
  by (simp add: reserveSlot_def Let_def sql_update_snd)

lemma reserveSlot_snd:
  "snd (reserveSlot s u n w) =
     w\<lparr>fridge_slots :=
          fst (sql_update (\<lambda>r. slot_no r = s \<and> reserved_by_id r = None)
                 (set_reserved u n (db_now w) (js_now w + 28800000)) (fridge_slots w)),
       store_queries := store_queries w + 1\<rparr>"
  by (simp add: reserveSlot_def Let_def RESERVE_HOURS_def)

lemma reserveSlot_ok_iff:
  "distinct (map slot_no (fridge_slots w)) \<Longrightarrow>
     fst (reserveSlot s u n w) = (\<exists>r\<in>set (fridge_slots w). slot_no r = s \<and> reserved_by_id r = None)"
  by (simp add: reserveSlot_fst filter_key_eq1)

lemma reserveSlot_ok_only_if:
  "fst (reserveSlot s u n w) \<Longrightarrow> \<exists>r\<in>set (fridge_slots w). slot_no r = s \<and> reserved_by_id r = None"
proof -
  assume "fst (reserveSlot s u n w)"
  then have "filter (\<lambda>r. slot_no r = s \<and> reserved_by_id r = None) (fridge_slots w) \<noteq> []"
    by (auto simp: reserveSlot_fst)
  then show ?thesis by (auto simp: filter_empty_conv)
qed

lemma reserveSlot_none_free:
  assumes "\<forall>r\<in>set (fridge_slots w). slot_no r = s \<longrightarrow> reserved_by_id r \<noteq> None"
  shows "\<not> fst (reserveSlot s u n w)"
    and "fridge_slots (snd (reserveSlot s u n w)) = fridge_slots w"
proof -
  from assms have "\<forall>r\<in>set (fridge_slots w). \<not> (slot_no r = s \<and> reserved_by_id r = None)"
    by blast
  then have e: "sql_update (\<lambda>r. slot_no r = s \<and> reserved_by_id r = None)
                 (set_reserved u n (db_now w) (js_now w + 28800000)) (fridge_slots w)
                = (fridge_slots w, [])"
    by (rule sql_update_none)
  show "fridge_slots (snd (reserveSlot s u n w)) = fridge_slots w"
    by (simp add: reserveSlot_snd e)
  from e have "filter (\<lambda>r. slot_no r = s \<and> reserved_by_id r = None) (fridge_slots w) = []"
    by (simp add: sql_update_def)
  then show "\<not> fst (reserveSlot s u n w)"
    by (simp add: reserveSlot_fst)
qed

lemma reserveSlot_held_after:
  assumes "r \<in> set (fridge_slots (snd (reserveSlot s u n w)))" and "slot_no r = s"
  shows "reserved_by_id r \<noteq> None"
proof -
  from assms(1) obtain r0 where
    r: "r = (if slot_no r0 = s \<and> reserved_by_id r0 = None
             then set_reserved u n (db_now w) (js_now w + 28800000) r0 else r0)"
    unfolding reserveSlot_snd by (auto dest: in_sql_update)
  show ?thesis
  proof (cases "slot_no r0 = s \<and> reserved_by_id r0 = None")
    case True
    with r show ?thesis by simp
  next
    case False
    with r assms(2) show ?thesis by auto
  qed
qed

lemma reserveSlot_winner:
  assumes pk: "distinct (map slot_no (fridge_slots w))"
      and free: "\<exists>r\<in>set (fridge_slots w). slot_no r = s \<and> reserved_by_id r = None"
      and r: "r \<in> set (fridge_slots (snd (reserveSlot s u n w)))" and s: "slot_no r = s"
  shows "reserved_by_id r = Some u \<and> ends_at r = Some (js_now w + 28800000)"
proof -
  from free obtain f where f: "f \<in> set (fridge_slots w)" "slot_no f = s" "reserved_by_id f = None"
    by blast
  from r obtain r0 where r0: "r0 \<in> set (fridge_slots w)" and
    req: "r = (if slot_no r0 = s \<and> reserved_by_id r0 = None
             then set_reserved u n (db_now w) (js_now w + 28800000) r0 else r0)"
    unfolding reserveSlot_snd by (auto dest: in_sql_update)
  have "slot_no r0 = s"
    using req s by (cases "slot_no r0 = s \<and> reserved_by_id r0 = None") auto
  with pk f r0 have "r0 = f" by (auto intro: pk_unique)
  with f req show ?thesis by simp
qed

text \<open>
  Claim C1.  Let slot \<open>s\<close> be a row of the table (unique by the primary key) whose holder
  is null.  A claim of \<open>s\<close> by \<open>u1\<close> succeeds.  A following claim of \<open>s\<close> by any
  \<open>u2\<close>, at whatever later readings \<open>tdb\<close> and \<open>tjs\<close> of the two clocks, returns
  \<open>False\<close> (already held) and leaves every row as the first claim left it, so the holder
  of \<open>s\<close> is \<open>u1\<close>: exactly one of the two claims succeeds.  The same holds when the
  second claim is preceded by the sweep that the handler runs first, as long as the lease of
  the first claim (eight hours from its \<^verbatim>\<open>Date.now()\<close>) has not ended at the sweep.  And in
  any world, a claim that succeeds found a row of that slot with a null holder.
\<close>

theorem reserveSlot_twice_one_winner:
  assumes pk: "distinct (map slot_no (fridge_slots w))"
      and free: "\<exists>r\<in>set (fridge_slots w). slot_no r = s \<and> reserved_by_id r = None"
      and w1: "w1 = snd (reserveSlot s u1 n1 w)"
      and later: "w1' = w1\<lparr>db_now := tdb, js_now := tjs\<rparr>"
  shows "fst (reserveSlot s u1 n1 w) \<and>
         \<not> fst (reserveSlot s u2 n2 w1') \<and>
         fridge_slots (snd (reserveSlot s u2 n2 w1')) = fridge_slots w1 \<and>
         (\<forall>r\<in>set (fridge_slots (snd (reserveSlot s u2 n2 w1'))).
            slot_no r = s \<longrightarrow> reserved_by_id r = Some u1) \<and>
         (tdb < js_now w + 28800000 \<longrightarrow>
            \<not> fst (reserveSlot s u2 n2 (freeExpiredSlots w1')) \<and>
            (\<forall>r\<in>set (fridge_slots (snd (reserveSlot s u2 n2 (freeExpiredSlots w1')))).
               slot_no r = s \<longrightarrow> reserved_by_id r = Some u1)) \<and>
         (fst (reserveSlot s' u' n' w') \<longrightarrow>
            (\<exists>r\<in>set (fridge_slots w'). slot_no r = s' \<and> reserved_by_id r = None))"
proof -
  have first: "fst (reserveSlot s u1 n1 w)"
    using pk free by (simp add: reserveSlot_ok_iff)
  have rows1: "fridge_slots w1' = fridge_slots w1"
    by (simp add: later)
  have held: "\<forall>r\<in>set (fridge_slots w1'). slot_no r = s \<longrightarrow> reserved_by_id r \<noteq> None"
    using reserveSlot_held_after [of _ s u1 n1 w] by (auto simp: rows1 w1)
  have second: "\<not> fst (reserveSlot s u2 n2 w1')"
    and same: "fridge_slots (snd (reserveSlot s u2 n2 w1')) = fridge_slots w1"
    using reserveSlot_none_free [OF held] by (simp_all add: rows1)
  have holder: "\<forall>r\<in>set (fridge_slots w1). slot_no r = s \<longrightarrow>
                  reserved_by_id r = Some u1 \<and> ends_at r = Some (js_now w + 28800000)"
    using reserveSlot_winner [OF pk free] by (simp add: w1)
  have swept: "\<not> fst (reserveSlot s u2 n2 (freeExpiredSlots w1')) \<and>
            (\<forall>r\<in>set (fridge_slots (snd (reserveSlot s u2 n2 (freeExpiredSlots w1')))).
               slot_no r = s \<longrightarrow> reserved_by_id r = Some u1)"
    if before: "tdb < js_now w + 28800000"
  proof -
    have keep: "reserved_by_id r = Some u1"
      if r: "r \<in> set (fridge_slots (freeExpiredSlots w1'))" and s: "slot_no r = s" for r
    proof -
      from freeExpiredSlots_origin [OF r] obtain r0 where
        r0: "r0 \<in> set (fridge_slots w1')" "slot_no r0 = slot_no r" and
        req: "r = (if ends_at_passed (db_now w1') r0 then set_all_null r0 else r0)"
        by blast
      from r0 s holder have h0: "reserved_by_id r0 = Some u1" "ends_at r0 = Some (js_now w + 28800000)"
        by (simp_all add: rows1)
      with before have "\<not> ends_at_passed (db_now w1') r0"
        by (simp add: ends_at_passed_def later)
      with req h0 show ?thesis by simp
    qed
    then have held': "\<forall>r\<in>set (fridge_slots (freeExpiredSlots w1')). slot_no r = s \<longrightarrow> reserved_by_id r \<noteq> None"
      by auto
    from reserveSlot_none_free [OF held'] keep show ?thesis by simp
  qed
  have only: "fst (reserveSlot s' u' n' w') \<longrightarrow>
            (\<exists>r\<in>set (fridge_slots w'). slot_no r = s' \<and> reserved_by_id r = None)"
    using reserveSlot_ok_only_if by blast
  from first second same holder swept only show ?thesis
    by simp
qed

text \<open>In the example world slot 4 is free: carol gets it, dave does not.\<close>

theorem reserveSlot_twice_one_winner_witness:
  "distinct (map slot_no (fridge_slots example_world)) \<and>
   (\<exists>r\<in>set (fridge_slots example_world). slot_no r = 4 \<and> reserved_by_id r = None) \<and>
   fst (reserveSlot 4 ''carol'' ''Carol'' example_world) \<and>
   \<not> fst (reserveSlot 4 ''dave'' ''Dave''
           ((snd (reserveSlot 4 ''carol'' ''Carol'' example_world))
              \<lparr>db_now := 31000000, js_now := 31000000\<rparr>)) \<and>
   \<not> fst (reserveSlot 4 ''dave'' ''Dave''
           (freeExpiredSlots
              ((snd (reserveSlot 4 ''carol'' ''Carol'' example_world))
                 \<lparr>db_now := 31000000, js_now := 31000000\<rparr>)))"
proof -
  have lt: "31000000 < js_now example_world + 28800000"
    by (simp add: example_world_eq)
  from reserveSlot_twice_one_winner [OF example_rows_pk example_slot4_free refl refl,
      where ?u1.0 = "''carol''" and ?n1.0 = "''Carol''" and ?u2.0 = "''dave''"
        and ?n2.0 = "''Dave''" and tdb = 31000000 and tjs = 31000000]
    lt example_rows_pk example_slot4_free
  show ?thesis by blast
qed

subsection \<open>What a user holds after a claim\<close>

lemma filter_update_one:
  assumes "distinct (map k xs)" and "f \<in> set xs" and "k f = s" and "c f" and "\<not> P f"
      and "\<And>r. P (g r)"
  shows "length (filter P (map (\<lambda>r. if k r = s \<and> c r then g r else r) xs)) =
           Suc (length (filter P xs))"
  using assms(1,2)
proof (induction xs)
  case Nil
  then show ?case by simp
next
  case (Cons x xs)
  show ?case
  proof (cases "x = f")
    case True
    with Cons.prems assms(3) have "\<forall>r\<in>set xs. k r \<noteq> s" by (auto simp: image_iff)
    then have "map (\<lambda>r. if k r = s \<and> c r then g r else r) xs = xs"
      by (intro map_idI) simp
    with True assms(3-6) show ?thesis by simp
  next
    case False
    with Cons.prems have f: "f \<in> set xs" and d: "distinct (map k xs)" and "k x \<noteq> k f"
      by auto
    with assms(3) have "k x \<noteq> s" by simp
    with Cons.IH [OF d f] show ?thesis by simp
  qed
qed

lemma getUserReservedSlots_fst:
  "fst (getUserReservedSlots u w) =
     map (\<lambda>r. (slot_no r, ends_at r))
       (sort_key slot_no (filter (\<lambda>r. reserved_by_id r = Some u) (fridge_slots w)))"
  by (simp add: getUserReservedSlots_def)

lemma getUserReservedSlots_nos:
  "set (map fst (fst (getUserReservedSlots u w))) =
     slot_no ` {r \<in> set (fridge_slots w). reserved_by_id r = Some u}"
  by (simp add: getUserReservedSlots_fst o_def)

lemma reserveSlot_holdings:
  "slot_no ` {r \<in> set (fridge_slots (snd (reserveSlot s u n w))). reserved_by_id r = Some u} =
     slot_no ` {r \<in> set (fridge_slots w). reserved_by_id r = Some u} \<union>
     slot_no ` {r \<in> set (fridge_slots w). slot_no r = s \<and> reserved_by_id r = None}"
proof -
  let ?g = "set_reserved u n (db_now w) (js_now w + 28800000)"
  let ?f = "\<lambda>r. if slot_no r = s \<and> reserved_by_id r = None then ?g r else r"
  have rows: "fridge_slots (snd (reserveSlot s u n w)) = map ?f (fridge_slots w)"
    by (simp add: reserveSlot_snd sql_update_fst)
  have k: "slot_no (?f r) = slot_no r" for r by simp
  have h: "(reserved_by_id (?f r) = Some u) =
           (reserved_by_id r = Some u \<or> (slot_no r = s \<and> reserved_by_id r = None))" for r
    by auto
  have "slot_no ` {r \<in> set (map ?f (fridge_slots w)). reserved_by_id r = Some u} =
        slot_no ` {r \<in> set (fridge_slots w). reserved_by_id (?f r) = Some u}"
  proof -
    have "{r \<in> set (map ?f (fridge_slots w)). reserved_by_id r = Some u} =
          ?f ` {r \<in> set (fridge_slots w). reserved_by_id (?f r) = Some u}"
      by (simp only: set_map) blast
    then show ?thesis
      by (simp only: image_image k)
  qed
  also have "\<dots> = slot_no ` ({r \<in> set (fridge_slots w). reserved_by_id r = Some u} \<union>
                 {r \<in> set (fridge_slots w). slot_no r = s \<and> reserved_by_id r = None})"
    unfolding h by (rule arg_cong [where f = "(`) slot_no"]) blast
  finally show ?thesis
    by (simp only: rows image_Un)
qed

text \<open>
  Claim C10.  No quota: under the primary key, for a slot \<open>s\<close> with a null holder and
  any user \<open>u\<close>, whatever \<open>u\<close> holds already, \<^verbatim>\<open>reserveSlot\<close> returns true; the slot
  numbers listed for \<open>u\<close> become the former ones and \<open>s\<close>, and their count grows by
  one.
\<close>

theorem reserveSlot_no_quota:
  assumes pk: "distinct (map slot_no (fridge_slots w))"
      and free: "\<exists>r\<in>set (fridge_slots w). slot_no r = s \<and> reserved_by_id r = None"
  shows "fst (reserveSlot s u n w) \<and>
         set (map fst (fst (getUserReservedSlots u (snd (reserveSlot s u n w))))) =
           insert s (set (map fst (fst (getUserReservedSlots u w)))) \<and>
         length (fst (getUserReservedSlots u (snd (reserveSlot s u n w)))) =
           Suc (length (fst (getUserReservedSlots u w)))"
proof -
  from free obtain f where f: "f \<in> set (fridge_slots w)" "slot_no f = s" "reserved_by_id f = None"
    by blast
  have ok: "fst (reserveSlot s u n w)"
    using pk free by (simp add: reserveSlot_ok_iff)
  have "slot_no ` {r \<in> set (fridge_slots w). slot_no r = s \<and> reserved_by_id r = None} = {s}"
    using f by auto
  then have nos: "set (map fst (fst (getUserReservedSlots u (snd (reserveSlot s u n w))))) =
           insert s (set (map fst (fst (getUserReservedSlots u w))))"
    by (simp only: getUserReservedSlots_nos reserveSlot_holdings) simp
  have "length (filter (\<lambda>r. reserved_by_id r = Some u)
          (map (\<lambda>r. if slot_no r = s \<and> reserved_by_id r = None
                    then set_reserved u n (db_now w) (js_now w + 28800000) r else r)
             (fridge_slots w))) =
        Suc (length (filter (\<lambda>r. reserved_by_id r = Some u) (fridge_slots w)))"
    using pk f(1,2) by (rule filter_update_one) (simp_all add: f(3))
  then have len: "length (fst (getUserReservedSlots u (snd (reserveSlot s u n w)))) =
           Suc (length (fst (getUserReservedSlots u w)))"
    by (simp add: getUserReservedSlots_fst reserveSlot_snd sql_update_fst)
  from ok nos len show ?thesis by blast
qed

text \<open>In the example world alice holds slots 1 and 2 and gets slot 4 as a third.\<close>

theorem reserveSlot_no_quota_witness:
  "length (fst (getUserReservedSlots ''alice'' example_world)) = 2 \<and>
   fst (reserveSlot 4 ''alice'' ''Alice'' example_world) \<and>
   length (fst (getUserReservedSlots ''alice''
             (snd (reserveSlot 4 ''alice'' ''Alice'' example_world)))) = 3 \<and>
   set (map fst (fst (getUserReservedSlots ''alice''
             (snd (reserveSlot 4 ''alice'' ''Alice'' example_world))))) = {1, 2, 4}"
proof -
  from reserveSlot_no_quota [OF example_rows_pk example_slot4_free, of "''alice''" "''Alice''"]
  show ?thesis by (auto simp: example_alice_holds)
qed

section \<open>Releasing a slot\<close>

lemma releaseSpecificSlot_fst:
  "fst (releaseSpecificSlot s u w) =
     (if \<exists>r\<in>set (fridge_slots w). slot_no r = s \<and> reserved_by_id r = Some u then Some s else None)"
proof (cases "filter (\<lambda>r. slot_no r = s \<and> reserved_by_id r = Some u) (fridge_slots w)")
  case Nil
  then have "\<not> (\<exists>r\<in>set (fridge_slots w). slot_no r = s \<and> reserved_by_id r = Some u)"
    by (auto simp: filter_empty_conv)
  with Nil show ?thesis
    by (simp add: releaseSpecificSlot_def Let_def sql_update_snd)
next
  case (Cons r rs)
  then have "r \<in> set (filter (\<lambda>r. slot_no r = s \<and> reserved_by_id r = Some u) (fridge_slots w))"
    by simp
  then have "r \<in> set (fridge_slots w)" "slot_no r = s" "reserved_by_id r = Some u"
    by simp_all
  with Cons show ?thesis
    by (auto simp: releaseSpecificSlot_def Let_def sql_update_snd)
qed

lemma releaseSpecificSlot_rows:
  "fridge_slots (snd (releaseSpecificSlot s u w)) =
     map (\<lambda>r. if slot_no r = s \<and> reserved_by_id r = Some u then set_all_null r else r)
       (fridge_slots w)"
  by (simp add: releaseSpecificSlot_def Let_def sql_update_fst)

text \<open>
  Claim C2.  \<^verbatim>\<open>releaseSpecificSlot(s, u)\<close> returns the slot number \<open>s\<close> exactly when a
  row of slot \<open>s\<close> has holder \<open>u\<close>; it returns null exactly when no row of slot \<open>s\<close>
  has holder \<open>u\<close> (the slot is free, held by someone else, or absent), and then the table
  is unchanged.  In every case the rows of slot \<open>s\<close> held by \<open>u\<close> have their four
  fields cleared and all other rows are as before.
\<close>

theorem releaseSpecificSlot_iff_held:
  "(fst (releaseSpecificSlot s u w) = Some s) =
     (\<exists>r\<in>set (fridge_slots w). slot_no r = s \<and> reserved_by_id r = Some u) \<and>
   (fst (releaseSpecificSlot s u w) = None) =
     (\<forall>r\<in>set (fridge_slots w). slot_no r = s \<longrightarrow> reserved_by_id r \<noteq> Some u) \<and>
   (fst (releaseSpecificSlot s u w) = None \<longrightarrow>
      fridge_slots (snd (releaseSpecificSlot s u w)) = fridge_slots w) \<and>
   fridge_slots (snd (releaseSpecificSlot s u w)) =
     map (\<lambda>r. if slot_no r = s \<and> reserved_by_id r = Some u
              then r\<lparr>reserved_by_id := None, reserved_by_name := None,
                     reserved_at := None, ends_at := None\<rparr>
              else r) (fridge_slots w)"
proof -
  have a: "(fst (releaseSpecificSlot s u w) = Some s) =
     (\<exists>r\<in>set (fridge_slots w). slot_no r = s \<and> reserved_by_id r = Some u)"
    by (simp add: releaseSpecificSlot_fst)
  have b: "(fst (releaseSpecificSlot s u w) = None) =
     (\<forall>r\<in>set (fridge_slots w). slot_no r = s \<longrightarrow> reserved_by_id r \<noteq> Some u)"
    by (auto simp: releaseSpecificSlot_fst)
  have c: "fridge_slots (snd (releaseSpecificSlot s u w)) = fridge_slots w"
    if "fst (releaseSpecificSlot s u w) = None"
  proof -
    from that b have "\<forall>r\<in>set (fridge_slots w). \<not> (slot_no r = s \<and> reserved_by_id r = Some u)"
      by blast
    then have "sql_update (\<lambda>r. slot_no r = s \<and> reserved_by_id r = Some u) set_all_null
                 (fridge_slots w) = (fridge_slots w, [])"
      by (rule sql_update_none)
    then show ?thesis
      by (simp add: releaseSpecificSlot_def Let_def)
  qed
  have d: "fridge_slots (snd (releaseSpecificSlot s u w)) =
     map (\<lambda>r. if slot_no r = s \<and> reserved_by_id r = Some u
              then r\<lparr>reserved_by_id := None, reserved_by_name := None,
                     reserved_at := None, ends_at := None\<rparr>
              else r) (fridge_slots w)"
    by (simp add: releaseSpecificSlot_rows set_all_null_def)
  from a b c d show ?thesis by blast
qed

text \<open>
  In the example world bob releases his slot 3; alice can release neither bob's slot 3 nor
  the free slot 4.
\<close>

theorem releaseSpecificSlot_iff_held_witness:
  "fst (releaseSpecificSlot 3 ''bob'' example_world) = Some 3 \<and>
   fst (releaseSpecificSlot 3 ''alice'' example_world) = None \<and>
   fridge_slots (snd (releaseSpecificSlot 3 ''alice'' example_world)) = fridge_slots example_world \<and>
   fst (releaseSpecificSlot 4 ''alice'' example_world) = None"
  using releaseSpecificSlot_iff_held [of 3 "''bob''" example_world]
    releaseSpecificSlot_iff_held [of 3 "''alice''" example_world]
    releaseSpecificSlot_iff_held [of 4 "''alice''" example_world]
  by (simp add: example_world_eq upto_rec1 empty_slot_def)

section \<open>The table invariant is kept by every statement\<close>

lemma slots_ok_insert_slot: "slots_ok w \<Longrightarrow> slots_ok (insert_slot i w)"
  by (auto simp: slots_ok_def insert_slot_def empty_slot_def)

lemma slots_ok_fold_insert: "slots_ok w \<Longrightarrow> slots_ok (fold insert_slot is w)"
  by (induction "is" arbitrary: w) (simp_all add: slots_ok_insert_slot)

lemma slots_ok_queries [simp]: "slots_ok (w\<lparr>store_queries := q\<rparr>) = slots_ok w"
  by (simp add: slots_ok_def)

lemma slots_ok_dbInit: "slots_ok w \<Longrightarrow> slots_ok (dbInit w)"
  by (simp add: dbInit_def slots_ok_fold_insert)

lemma slots_ok_sql_update:
  assumes "slots_ok w" and "\<And>r. slot_no (g r) = slot_no r"
      and "\<And>r. reserved_by_id (g r) \<noteq> None \<longrightarrow> ends_at (g r) \<noteq> None"
  shows "slots_ok (w\<lparr>fridge_slots := fst (sql_update c g (fridge_slots w)), store_queries := q\<rparr>)"
proof -
  have "map slot_no (fst (sql_update c g (fridge_slots w))) = map slot_no (fridge_slots w)"
    using assms(2) by (rule sql_update_keys)
  moreover have "reserved_by_id r \<noteq> None \<longrightarrow> ends_at r \<noteq> None"
    if "r \<in> set (fst (sql_update c g (fridge_slots w)))" for r
  proof -
    from in_sql_update [OF that] obtain r0 where
      "r0 \<in> set (fridge_slots w)" "r = (if c r0 then g r0 else r0)" by blast
    with assms(1,3) show ?thesis
      by (cases "c r0") (auto simp: slots_ok_def)
  qed
  ultimately show ?thesis
    using assms(1) by (simp add: slots_ok_def)
qed

lemma slots_ok_freeExpiredSlots: "slots_ok w \<Longrightarrow> slots_ok (freeExpiredSlots w)"
  unfolding freeExpiredSlots_def by (rule slots_ok_sql_update) simp_all

lemma slots_ok_reserveSlot: "slots_ok w \<Longrightarrow> slots_ok (snd (reserveSlot s u n w))"
  unfolding reserveSlot_snd by (rule slots_ok_sql_update) simp_all

lemma slots_ok_releaseSpecificSlot: "slots_ok w \<Longrightarrow> slots_ok (snd (releaseSpecificSlot s u w))"
proof -
  assume ok: "slots_ok w"
  have "snd (releaseSpecificSlot s u w) =
      w\<lparr>fridge_slots :=
           fst (sql_update (\<lambda>row. slot_no row = s \<and> reserved_by_id row = Some u)
                  set_all_null (fridge_slots w)),
        store_queries := store_queries w + 1\<rparr>"
    by (simp add: releaseSpecificSlot_def Let_def)
  then show ?thesis
    using slots_ok_sql_update [OF ok, of set_all_null] by simp
qed

section \<open>The sweep\<close>

text \<open>
  Claim C3.  In a table where every held row has an end date, after \<^verbatim>\<open>freeExpiredSlots\<close>
  every row is free or has an end date strictly later than the \<^verbatim>\<open>NOW()\<close> of the sweep.
  The sweep sets the four fields to null in exactly the rows whose end date is at or before
  \<^verbatim>\<open>NOW()\<close> and leaves the others alone; with nothing to sweep it changes no row; and a
  second sweep at the same time changes nothing but the count of queries.
\<close>

theorem freeExpiredSlots_leaves_free_or_future:
  assumes dated: "\<forall>r\<in>set (fridge_slots w). reserved_by_id r \<noteq> None \<longrightarrow> ends_at r \<noteq> None"
  shows "(\<forall>r\<in>set (fridge_slots (freeExpiredSlots w)).
            reserved_by_id r = None \<or> (\<exists>e. ends_at r = Some e \<and> db_now w < e)) \<and>
         fridge_slots (freeExpiredSlots w) =
           map (\<lambda>r. if \<exists>e. ends_at r = Some e \<and> e \<le> db_now w
                    then r\<lparr>reserved_by_id := None, reserved_by_name := None,
                           reserved_at := None, ends_at := None\<rparr>
                    else r) (fridge_slots w) \<and>
         ((\<forall>r\<in>set (fridge_slots w). \<forall>e. ends_at r = Some e \<longrightarrow> db_now w < e) \<longrightarrow>
            fridge_slots (freeExpiredSlots w) = fridge_slots w) \<and>
         fridge_slots (freeExpiredSlots (freeExpiredSlots w)) = fridge_slots (freeExpiredSlots w) \<and>
         freeExpiredSlots (freeExpiredSlots w) =
           (freeExpiredSlots w)\<lparr>store_queries := store_queries w + 2\<rparr>"
proof -
  have passed: "ends_at_passed (db_now w) r = (\<exists>e. ends_at r = Some e \<and> e \<le> db_now w)" for r
    by (cases "ends_at r") (simp_all add: ends_at_passed_def)
  have a: "reserved_by_id r = None \<or> (\<exists>e. ends_at r = Some e \<and> db_now w < e)"
    if r: "r \<in> set (fridge_slots (freeExpiredSlots w))" for r
  proof -
    from freeExpiredSlots_origin [OF r] obtain r0 where
      r0: "r0 \<in> set (fridge_slots w)" and
      req: "r = (if ends_at_passed (db_now w) r0 then set_all_null r0 else r0)"
      by blast
    show ?thesis
    proof (cases "ends_at_passed (db_now w) r0")
      case True
      with req show ?thesis by simp
    next
      case False
      with req have "r = r0" by simp
      with False r0 dated show ?thesis
        by (cases "ends_at r0") (auto simp: ends_at_passed_def)
    qed
  qed
  have b: "fridge_slots (freeExpiredSlots w) =
           map (\<lambda>r. if \<exists>e. ends_at r = Some e \<and> e \<le> db_now w
                    then r\<lparr>reserved_by_id := None, reserved_by_name := None,
                           reserved_at := None, ends_at := None\<rparr>
                    else r) (fridge_slots w)"
    unfolding freeExpiredSlots_rows passed set_all_null_def ..
  have c: "fridge_slots (freeExpiredSlots w) = fridge_slots w"
    if "\<forall>r\<in>set (fridge_slots w). \<forall>e. ends_at r = Some e \<longrightarrow> db_now w < e"
  proof -
    from that have "\<forall>r\<in>set (fridge_slots w). \<not> ends_at_passed (db_now w) r"
      by (auto simp: passed)
    then have "sql_update (ends_at_passed (db_now w)) set_all_null (fridge_slots w) =
                 (fridge_slots w, [])"
      by (rule sql_update_none)
    then show ?thesis by (simp add: freeExpiredSlots_def)
  qed
  have d: "fridge_slots (freeExpiredSlots (freeExpiredSlots w)) = fridge_slots (freeExpiredSlots w)"
    by (rule freeExpiredSlots_idem_rows)
  have e: "freeExpiredSlots (freeExpiredSlots w) =
           (freeExpiredSlots w)\<lparr>store_queries := store_queries w + 2\<rparr>"
    by (simp add: freeExpiredSlots_def sql_update_fst sweep_map_idem)
  from a b c d e show ?thesis by blast
qed

text \<open>
  In the example world slots 1, 2 and 3 are held; the sweep at 8 h 20 min frees slot 1 and
  keeps slots 2 and 3, which end later.
\<close>

theorem freeExpiredSlots_leaves_free_or_future_witness:
  "map slot_no (filter (\<lambda>r. reserved_by_id r \<noteq> None) (fridge_slots example_world)) = [1, 2, 3] \<and>
   map slot_no (filter (\<lambda>r. reserved_by_id r \<noteq> None)
                  (fridge_slots (freeExpiredSlots example_world))) = [2, 3] \<and>
   map ends_at (filter (\<lambda>r. reserved_by_id r \<noteq> None)
                  (fridge_slots (freeExpiredSlots example_world))) =
     [Some 32400000, Some 36000000] \<and>
   db_now example_world = 30000000 \<and>
   fridge_slots (freeExpiredSlots (freeExpiredSlots example_world)) =
     fridge_slots (freeExpiredSlots example_world)"
proof -
  have h: "\<forall>r\<in>set (fridge_slots example_world). reserved_by_id r \<noteq> None \<longrightarrow> ends_at r \<noteq> None"
    by (simp add: example_world_eq upto_rec1 empty_slot_def)
  have before: "map slot_no (filter (\<lambda>r. reserved_by_id r \<noteq> None) (fridge_slots example_world)) =
      [1, 2, 3] \<and> db_now example_world = 30000000"
    by (simp add: example_world_eq upto_rec1 empty_slot_def)
  have rows: "map slot_no (filter (\<lambda>r. reserved_by_id r \<noteq> None)
                  (fridge_slots (freeExpiredSlots example_world))) = [2, 3] \<and>
   map ends_at (filter (\<lambda>r. reserved_by_id r \<noteq> None)
                  (fridge_slots (freeExpiredSlots example_world))) =
     [Some 32400000, Some 36000000]"
    using freeExpiredSlots_leaves_free_or_future [OF h]
    by (simp add: example_world_eq upto_rec1 empty_slot_def)
  from freeExpiredSlots_leaves_free_or_future [OF h] before rows show ?thesis
    by blast
qed

section \<open>The listings offered to the user\<close>

lemma insort_key_map:
  "(\<And>r. k (g r) = k r) \<Longrightarrow> insort_key k (g x) (map g xs) = map g (insort_key k x xs)"
  by (induction xs) simp_all

lemma sort_key_map:
  "(\<And>r. k (g r) = k r) \<Longrightarrow> sort_key k (map g xs) = map g (sort_key k xs)"
  by (induction xs) (simp_all add: insort_key_map)

lemma sort_key_Nil_iff [simp]: "(sort_key f xs = []) = (xs = [])"
  using length_sort [of f xs] by (metis length_0_conv)

lemma sweep_slot_no [simp]:
  "slot_no (if ends_at_passed t r then set_all_null r else r) = slot_no r"
  by simp

lemma filter_held_sweep:
  "filter (\<lambda>r. reserved_by_id r = Some u)
     (map (\<lambda>r. if ends_at_passed t r then set_all_null r else r) rows) =
   filter (\<lambda>r. reserved_by_id r = Some u \<and> \<not> ends_at_passed t r) rows"
  by (induction rows) auto

lemma filter_free_sweep:
  "filter (\<lambda>r. \<not> js_truthy (reserved_by_id r))
     (map (\<lambda>r. if ends_at_passed t r then set_all_null r else r) rows) =
   map (\<lambda>r. if ends_at_passed t r then set_all_null r else r)
     (filter (\<lambda>r. \<not> js_truthy (reserved_by_id r) \<or> ends_at_passed t r) rows)"
  by (induction rows) (auto simp: js_truthy_def)

lemma getUserReservedSlots_swept:
  "fst (getUserReservedSlots u (freeExpiredSlots w)) =
     map (\<lambda>r. (slot_no r, ends_at r))
       (sort_key slot_no
          (filter (\<lambda>r. reserved_by_id r = Some u \<and> \<not> ends_at_passed (db_now w) r)
             (fridge_slots w)))"
  by (simp add: getUserReservedSlots_fst freeExpiredSlots_rows filter_held_sweep)

lemma fridge_release_fst:
  "fst (fridge_release u w) =
     (let mine = sort_key slot_no
                   (filter (\<lambda>r. reserved_by_id r = Some u \<and> \<not> ends_at_passed (db_now w) r)
                      (fridge_slots w))
      in if mine = [] then NothingReserved else OfferMine (map slot_no (take 25 mine)))"
proof -
  have "fridge_release u w =
     (if length (fst (getUserReservedSlots u (freeExpiredSlots w))) = 0
      then (NothingReserved, snd (getUserReservedSlots u (freeExpiredSlots w)))
      else (OfferMine (map fst (take 25 (fst (getUserReservedSlots u (freeExpiredSlots w))))),
            snd (getUserReservedSlots u (freeExpiredSlots w))))"
    by (simp add: fridge_release_def Let_def split_beta)
  then show ?thesis
    by (simp add: getUserReservedSlots_swept Let_def take_map o_def)
qed

lemma fridge_reserve_fst:
  "fst (fridge_reserve w) =
     (let free = filter (\<lambda>r. \<not> js_truthy (reserved_by_id r) \<or> ends_at_passed (db_now w) r)
                   (sort_key slot_no (fridge_slots w))
      in if free = [] then NoFreeSlots else OfferFree (map slot_no (take 25 free)))"
proof -
  have slots: "fst (getSlots (freeExpiredSlots w)) =
      map (\<lambda>r. if ends_at_passed (db_now w) r then set_all_null r else r)
        (sort_key slot_no (fridge_slots w))"
    by (simp add: getSlots_def freeExpiredSlots_rows sort_key_map)
  have "fst (fridge_reserve w) =
     (if filter (\<lambda>s. \<not> js_truthy (reserved_by_id s)) (fst (getSlots (freeExpiredSlots w))) = []
      then NoFreeSlots
      else OfferFree (map slot_no (take 25
             (filter (\<lambda>s. \<not> js_truthy (reserved_by_id s)) (fst (getSlots (freeExpiredSlots w)))))))"
    by (simp add: fridge_reserve_def Let_def split_beta)
  then show ?thesis
    by (simp add: slots filter_free_sweep Let_def take_map o_def)
qed

text \<open>
  Claim C4, as the specification words it, fails on \<^verbatim>\<open>getUserReservedSlots\<close>: at 8 h
  20 min the listing for alice contains slot 1, whose lease ended at 8 h.
\<close>

theorem getUserReservedSlots_lists_expired:
  "fst (getUserReservedSlots ''alice'' example_world) =
     [(1, Some 28800000), (2, Some 32400000)] \<and>
   db_now example_world = 30000000 \<and> js_now example_world = 30000000"
  by (simp add: example_alice_holds) (simp add: example_world_eq)

text \<open>
  Claim C4, amended.  \<^verbatim>\<open>getUserReservedSlots(u)\<close> lists, by slot number, the rows whose
  holder is \<open>u\<close>, whatever their end date.  The two handlers that offer a choice sweep
  first: the release menu offers (the first 25 of) the slots held by \<open>u\<close> whose end date
  is not at or before \<^verbatim>\<open>NOW()\<close>, and the claim menu offers (the first 25 of) the slots
  whose holder is null or empty or whose end date is at or before \<^verbatim>\<open>NOW()\<close>.
\<close>

theorem getUserReservedSlots_ignores_expiry:
  "fst (getUserReservedSlots u w) =
     map (\<lambda>r. (slot_no r, ends_at r))
       (sort_key slot_no (filter (\<lambda>r. reserved_by_id r = Some u) (fridge_slots w))) \<and>
   fst (fridge_release u w) =
     (let mine = sort_key slot_no
                   (filter (\<lambda>r. reserved_by_id r = Some u \<and>
                             \<not> (case ends_at r of None \<Rightarrow> False | Some e \<Rightarrow> e \<le> db_now w))
                      (fridge_slots w))
      in if mine = [] then NothingReserved else OfferMine (map slot_no (take 25 mine))) \<and>
   fst (fridge_reserve w) =
     (let free = filter (\<lambda>r. \<not> js_truthy (reserved_by_id r) \<or>
                             (case ends_at r of None \<Rightarrow> False | Some e \<Rightarrow> e \<le> db_now w))
                   (sort_key slot_no (fridge_slots w))
      in if free = [] then NoFreeSlots else OfferFree (map slot_no (take 25 free)))"
  using fridge_release_fst [of u w] fridge_reserve_fst [of w]
  by (simp add: getUserReservedSlots_fst ends_at_passed_def)

text \<open>
  In the example world the raw listing for alice has slots 1 and 2, her release menu has
  slot 2 only, and the claim menu has slot 1 and slots 4 to 24.
\<close>

theorem getUserReservedSlots_ignores_expiry_witness:
  "fst (getUserReservedSlots ''alice'' example_world) =
     [(1, Some 28800000), (2, Some 32400000)] \<and>
   fst (fridge_release ''alice'' example_world) = OfferMine [2] \<and>
   fst (fridge_reserve example_world) =
     OfferFree [1, 4, 5, 6, 7, 8, 9, 10, 11, 12, 13, 14, 15, 16, 17, 18, 19, 20, 21, 22, 23, 24]"
  using getUserReservedSlots_ignores_expiry [of "''alice''" example_world]
  by (simp add: example_world_eq upto_rec1 empty_slot_def Let_def js_truthy_def)

section \<open>The release button of the single-slot variant\<close>

text \<open>
  Claim C5 does not hold of \<^verbatim>\<open>index.js\<close>: the handler calls \<^verbatim>\<open>releaseUserSlot\<close>, a
  name the file never binds.  Whatever the function might have been, pressing the button
  ends in a \<^verbatim>\<open>ReferenceError\<close> after the sweep, and nothing is released.
\<close>

theorem index_fridge_release_throws:
  "index_fridge_release impl u w =
     (Inl (ReferenceError ''releaseUserSlot''), freeExpiredSlots w)"
  by (simp add: index_fridge_release_def index_js_bindings_def)

section \<open>Remaining-duration formatting\<close>

lemma hours_of_ms: "0 < (ms::int) \<Longrightarrow> ms div 60000 div 60 = ms div 3600000"
  by (simp add: div_mult2_eq [symmetric])

lemma minutes_of_ms: "0 < (ms::int) \<Longrightarrow> ms div 60000 mod 60 = ms mod 3600000 div 60000"
proof -
  have "ms mod 3600000 = ms mod (60000 * 60)" by simp
  also have "\<dots> = 60000 * (ms div 60000 mod 60) + ms mod 60000"
    by (rule zmod_zmult2_eq) simp
  finally show ?thesis by simp
qed

text \<open>
  Claim C6, as the specification words it, fails: forty seconds of remaining time have a
  minute count of exactly zero, and the minutes clause is printed all the same.
\<close>

theorem humanRemaining_zero_minutes_shown:
  "humanRemaining 40000 = ''peste 0 minute''"
  by (simp add: humanRemaining_def js_String_def dec_digits_small)

text \<open>
  Claim C6, amended.  A delta at or below zero renders the expired marker.  A positive delta
  below one hour renders the minutes clause alone, also when the minute count is zero.  From
  one hour on the hours clause is rendered, alone when the minute count within the hour is
  zero and followed by the minutes clause otherwise.
\<close>

theorem humanRemaining_clauses:
  "(ms \<le> 0 \<longrightarrow> humanRemaining ms = ''expirat'') \<and>
   (0 < ms \<and> ms < 3600000 \<longrightarrow>
      humanRemaining ms = ''peste '' @ js_String (ms div 60000) @ '' minute'') \<and>
   (3600000 \<le> ms \<and> ms mod 3600000 < 60000 \<longrightarrow>
      humanRemaining ms = ''peste '' @ js_String (ms div 3600000) @ '' ore'') \<and>
   (3600000 \<le> ms \<and> 60000 \<le> ms mod 3600000 \<longrightarrow>
      humanRemaining ms = ''peste '' @ js_String (ms div 3600000) @ '' ore '' @
        js_String (ms mod 3600000 div 60000) @ '' minute'')"
proof (cases "0 < ms")
  case False
  then show ?thesis by (simp add: humanRemaining_def)
next
  case True
  have eq: "humanRemaining ms =
      (if ms div 3600000 \<le> 0
       then ''peste '' @ js_String (ms mod 3600000 div 60000) @ '' minute''
       else if ms mod 3600000 div 60000 = 0
         then ''peste '' @ js_String (ms div 3600000) @ '' ore''
       else ''peste '' @ js_String (ms div 3600000) @ '' ore '' @
            js_String (ms mod 3600000 div 60000) @ '' minute'')"
    using True by (simp add: humanRemaining_def Let_def hours_of_ms minutes_of_ms)
  have small: "ms div 3600000 \<le> 0 \<and> ms mod 3600000 div 60000 = ms div 60000" if "ms < 3600000"
    using True that by simp
  have big: "\<not> ms div 3600000 \<le> 0" if "3600000 \<le> ms"
    using that by (simp add: pos_imp_zdiv_pos_iff)
  have m0: "(ms mod 3600000 div 60000 = 0) = (ms mod 3600000 < 60000)"
    by (auto simp: zdiv_eq_0_iff)
  from True small big show ?thesis
    by (simp add: eq m0)
qed

theorem humanRemaining_clauses_witness:
  "humanRemaining (- 5) = ''expirat'' \<and>
   humanRemaining 1800000 = ''peste 30 minute'' \<and>
   humanRemaining 28800000 = ''peste 8 ore'' \<and>
   humanRemaining 5400000 = ''peste 1 ore 30 minute''"
  using humanRemaining_clauses [of "- 5"] humanRemaining_clauses [of 1800000]
    humanRemaining_clauses [of 28800000] humanRemaining_clauses [of 5400000]
  by (simp add: js_String_def dec_digits.simps)

section \<open>The renderer and the publication\<close>

lemma buildPanelEmbed_snd [simp]: "snd (buildPanelEmbed slots w) = w"
  by (simp add: buildPanelEmbed_def Let_def)

lemma buildPanelEmbed_fst_cong:
  "js_now w = js_now w' \<Longrightarrow> fst (buildPanelEmbed slots w) = fst (buildPanelEmbed slots w')"
  by (simp add: buildPanelEmbed_def Let_def)

text \<open>
  Claim C7.  \<^verbatim>\<open>buildPanelEmbed\<close> leaves the world as it found it, and its result depends
  on the slot list and on the reading of \<^verbatim>\<open>Date.now()\<close> only: in two worlds with the same
  clock, the same slot list renders to the same document.
\<close>

theorem buildPanelEmbed_pure:
  "snd (buildPanelEmbed slots w) = w \<and>
   (js_now w = js_now w' \<longrightarrow> fst (buildPanelEmbed slots w) = fst (buildPanelEmbed slots w'))"
  by (simp add: buildPanelEmbed_def Let_def)

theorem buildPanelEmbed_pure_witness:
  "snd (buildPanelEmbed (fridge_slots example_world) example_world) = example_world \<and>
   fst (buildPanelEmbed (fridge_slots example_world) example_world) =
   fst (buildPanelEmbed (fridge_slots example_world)
          (example_world\<lparr>fridge_slots := [], db_now := 7, store_queries := 9\<rparr>))"
  using buildPanelEmbed_pure [of "fridge_slots example_world" example_world
      "example_world\<lparr>fridge_slots := [], db_now := 7, store_queries := 9\<rparr>"]
  by simp

lemma panel_payload_eq:
  "panel_payload w =
     \<lparr>embeds = [fst (buildPanelEmbed (sort_key slot_no (fridge_slots (freeExpiredSlots w))) w)],
      components = [buildControlsRow]\<rparr>"
proof -
  have "fst (buildPanelEmbed slots (snd (getSlots (freeExpiredSlots w)))) =
        fst (buildPanelEmbed slots w)" for slots
    by (rule buildPanelEmbed_fst_cong) (simp add: getSlots_def freeExpiredSlots_def)
  then show ?thesis
    by (simp add: panel_payload_def Let_def split_beta) (simp add: getSlots_def)
qed

lemma panel_payload_cong:
  assumes "fridge_slots w' = fridge_slots (freeExpiredSlots w)"
      and "db_now w' = db_now w" and "js_now w' = js_now w"
  shows "panel_payload w' = panel_payload w"
proof -
  have "fridge_slots (freeExpiredSlots w') = fridge_slots (freeExpiredSlots w)"
    using assms by (simp add: freeExpiredSlots_rows sweep_map_idem)
  then show ?thesis
    using buildPanelEmbed_fst_cong [OF assms(3)] by (simp add: panel_payload_eq)
qed

lemma getMeta_fst:
  "fst (getMeta k w) = (case map_of (fridge_meta w) k of None \<Rightarrow> None | Some v \<Rightarrow> v)"
  by (simp add: getMeta_def)

lemma upsert_edit:
  assumes "channel_text w"
      and "map_of (fridge_meta w) ''panel_message_id'' = Some (Some mid)"
      and "mid \<noteq> []" and "mid \<in> fst ` set (channel_messages w)"
  shows "upsertPanelMessage w =
     (freeExpiredSlots w)
       \<lparr>channel_messages :=
          map (\<lambda>(i, m). if i = mid then (i, panel_payload w) else (i, m)) (channel_messages w),
        store_queries := store_queries w + 3\<rparr>"
  using assms
  by (simp add: upsertPanelMessage_def panel_payload_def Let_def split_beta getSlots_def
      getMeta_def freeExpiredSlots_def message_exists_def message_edit_def)

lemma upsert_send:
  assumes "channel_text w"
      and "\<not> (\<exists>mid. map_of (fridge_meta w) ''panel_message_id'' = Some (Some mid) \<and>
                 mid \<noteq> [] \<and> mid \<in> fst ` set (channel_messages w))"
  shows "upsertPanelMessage w =
     (freeExpiredSlots w)
       \<lparr>fridge_meta := AList.update ''panel_message_id''
                          (Some (dec_digits (next_snowflake w))) (fridge_meta w),
        channel_messages :=
          channel_messages w @ [(dec_digits (next_snowflake w), panel_payload w)],
        next_snowflake := Suc (next_snowflake w),
        store_queries := store_queries w + 4\<rparr>"
proof (cases "map_of (fridge_meta w) ''panel_message_id''")
  case None
  with assms(1) show ?thesis
    by (simp add: upsertPanelMessage_def panel_payload_def Let_def split_beta getSlots_def
      getMeta_def freeExpiredSlots_def channel_send_def setMeta_def)
next
  case (Some v)
  show ?thesis
  proof (cases v)
    case None
    with Some assms(1) show ?thesis
      by (simp add: upsertPanelMessage_def panel_payload_def Let_def split_beta getSlots_def
        getMeta_def freeExpiredSlots_def channel_send_def setMeta_def)
  next
    case (Some mid)
    with \<open>map_of (fridge_meta w) ''panel_message_id'' = Some v\<close> assms(2)
    have "\<not> (mid \<noteq> [] \<and> mid \<in> fst ` set (channel_messages w))" by simp
    then have no: "(mid \<noteq> [] \<and> mid \<in> fst ` set (channel_messages w)) = False" by simp
    from Some \<open>map_of (fridge_meta w) ''panel_message_id'' = Some v\<close> assms(1) show ?thesis
      by (simp add: upsertPanelMessage_def panel_payload_def Let_def split_beta getSlots_def
        getMeta_def freeExpiredSlots_def channel_send_def setMeta_def message_exists_def no)
  qed
qed

lemma map_of_edit:
  "map_of (map (\<lambda>(i, m). if i = mid then (i, p) else (i, m)) xs) mid =
     (if mid \<in> fst ` set xs then Some p else None)"
  by (induction xs) auto

lemma fst_edit [simp]:
  "map fst (map (\<lambda>(i, m). if i = mid then (i, p) else (i, m)) xs) = map fst xs"
  by (induction xs) auto

lemma ids_edit:
  "fst ` set (map (\<lambda>(i, m). if i = mid then (i, p) else (i, m)) xs) = fst ` set xs"
  by (induction xs) auto

lemma edit_twice:
  "map (\<lambda>(i, m). if i = mid then (i, p) else (i, m))
     (map (\<lambda>(i, m). if i = mid then (i, p) else (i, m)) xs) =
   map (\<lambda>(i, m). if i = mid then (i, p) else (i, m)) xs"
  by (induction xs) auto

lemma edit_fresh:
  "mid \<notin> fst ` set xs \<Longrightarrow>
     map (\<lambda>(i, m). if i = mid then (i, p) else (i, m)) (xs @ [(mid, p)]) = xs @ [(mid, p)]"
  by (induction xs) auto

lemma map_of_snoc_fresh:
  "mid \<notin> fst ` set xs \<Longrightarrow> map_of (xs @ [(mid, p)]) mid = Some p"
  by (induction xs) auto

lemma upsert_again:
  assumes ch: "channel_text w1"
      and meta: "map_of (fridge_meta w1) ''panel_message_id'' = Some (Some mid)"
      and mid: "mid \<noteq> []" "mid \<in> fst ` set (channel_messages w1)"
      and swept: "fridge_slots w1 = fridge_slots (freeExpiredSlots w)"
      and clocks: "db_now w1 = db_now w" "js_now w1 = js_now w"
      and same: "map (\<lambda>(i, m). if i = mid then (i, panel_payload w) else (i, m))
                   (channel_messages w1) = channel_messages w1"
  shows "panel_payload w1 = panel_payload w"
    and "channel_messages (upsertPanelMessage w1) = channel_messages w1"
    and "fridge_meta (upsertPanelMessage w1) = fridge_meta w1"
    and "fridge_slots (upsertPanelMessage w1) = fridge_slots w1"
proof -
  show p: "panel_payload w1 = panel_payload w"
    using swept clocks by (rule panel_payload_cong)
  note e = upsert_edit [OF ch meta mid]
  have "channel_messages (upsertPanelMessage w1) =
        map (\<lambda>(i, m). if i = mid then (i, panel_payload w1) else (i, m)) (channel_messages w1)"
    by (simp add: e)
  also have "\<dots> = channel_messages w1"
    unfolding p by (rule same)
  finally show "channel_messages (upsertPanelMessage w1) = channel_messages w1" .
  show "fridge_meta (upsertPanelMessage w1) = fridge_meta w1"
    by (simp add: e)
  have "fridge_slots (freeExpiredSlots w1) = fridge_slots w1"
    using swept clocks(1) by (simp add: freeExpiredSlots_rows sweep_map_idem)
  then show "fridge_slots (upsertPanelMessage w1) = fridge_slots w1"
    by (simp add: e)
qed

lemma upsert_later:
  assumes ch: "channel_text w1"
      and meta: "map_of (fridge_meta w1) ''panel_message_id'' = Some (Some mid)"
      and mid: "mid \<noteq> []" "mid \<in> fst ` set (channel_messages w1)"
  shows "map fst (channel_messages (upsertPanelMessage (w1\<lparr>db_now := a, js_now := b\<rparr>))) =
           map fst (channel_messages w1) \<and>
         fridge_meta (upsertPanelMessage (w1\<lparr>db_now := a, js_now := b\<rparr>)) = fridge_meta w1"
proof -
  let ?w = "w1\<lparr>db_now := a, js_now := b\<rparr>"
  have "upsertPanelMessage ?w =
     (freeExpiredSlots ?w)
       \<lparr>channel_messages :=
          map (\<lambda>(i, m). if i = mid then (i, panel_payload ?w) else (i, m)) (channel_messages ?w),
        store_queries := store_queries ?w + 3\<rparr>"
    by (rule upsert_edit) (simp_all add: ch meta mid)
  then show ?thesis
    by (simp del: map_map)
qed

text \<open>
  Claim C8, as the specification words it, fails: every call reads \<^verbatim>\<open>NOW()\<close> and
  \<^verbatim>\<open>Date.now()\<close> anew.  In the example world, publish, let one minute pass with no
  claim and no release, and publish again: the second call changes no row and adds no
  message, but the document it stores differs from the first one (slot 2 has 40 minutes left
  at the first call and 39 at the second).
\<close>

theorem upsertPanelMessage_later_document_differs:
  "fridge_slots (upsertPanelMessage
      ((upsertPanelMessage example_world)\<lparr>db_now := 30060000, js_now := 30060000\<rparr>)) =
     fridge_slots (upsertPanelMessage example_world) \<and>
   map fst (channel_messages (upsertPanelMessage
      ((upsertPanelMessage example_world)\<lparr>db_now := 30060000, js_now := 30060000\<rparr>))) =
     map fst (channel_messages (upsertPanelMessage example_world)) \<and>
   map_of (channel_messages (upsertPanelMessage
      ((upsertPanelMessage example_world)\<lparr>db_now := 30060000, js_now := 30060000\<rparr>))) ''1'' \<noteq>
     map_of (channel_messages (upsertPanelMessage example_world)) ''1'' \<and>
   humanRemaining (32400000 - 30000000) = ''peste 40 minute'' \<and>
   humanRemaining (32400000 - 30060000) = ''peste 39 minute''"
  by code_simp

text \<open>
  Claim C8, amended.  Let the panel channel be a text channel and let the identifier of the
  next message be unused.  Publish once, reaching \<open>w1\<close>, and again at the same readings
  of the two clocks, reaching \<open>w2\<close>.  Both calls render the same document; after the
  first call the metadata names a message that carries this document, and after the second
  call it still does; the second call leaves the messages of the channel, the metadata and
  the slots exactly as the first call left them, so it creates nothing.  The first call adds
  at most one message, and in a channel that was empty exactly one message exists at the
  end.  Whatever the clocks \<open>a\<close> and \<open>b\<close> read at the second call, it edits the
  message in place: the identifiers in the channel and the metadata stay as they were.
\<close>

theorem upsertPanelMessage_twice:
  assumes ch: "channel_text w"
      and fresh: "dec_digits (next_snowflake w) \<notin> fst ` set (channel_messages w)"
      and w1: "w1 = upsertPanelMessage w"
      and w2: "w2 = upsertPanelMessage w1"
  shows "panel_payload w1 = panel_payload w \<and>
         (\<exists>mid. fst (getMeta ''panel_message_id'' w1) = Some mid \<and> mid \<noteq> [] \<and>
                map_of (channel_messages w1) mid = Some (panel_payload w) \<and>
                map_of (channel_messages w2) mid = Some (panel_payload w1)) \<and>
         channel_messages w2 = channel_messages w1 \<and>
         fridge_meta w2 = fridge_meta w1 \<and>
         fridge_slots w2 = fridge_slots w1 \<and>
         length (channel_messages w1) \<le> Suc (length (channel_messages w)) \<and>
         (channel_messages w = [] \<longrightarrow> length (channel_messages w2) = 1) \<and>
         map fst (channel_messages (upsertPanelMessage (w1\<lparr>db_now := a, js_now := b\<rparr>))) =
           map fst (channel_messages w1) \<and>
         fridge_meta (upsertPanelMessage (w1\<lparr>db_now := a, js_now := b\<rparr>)) = fridge_meta w1"
proof (cases "\<exists>mid. map_of (fridge_meta w) ''panel_message_id'' = Some (Some mid) \<and>
                 mid \<noteq> [] \<and> mid \<in> fst ` set (channel_messages w)")
  case True
  then obtain mid where meta: "map_of (fridge_meta w) ''panel_message_id'' = Some (Some mid)"
    and mid: "mid \<noteq> []" "mid \<in> fst ` set (channel_messages w)"
    by blast
  have e: "w1 = (freeExpiredSlots w)
       \<lparr>channel_messages :=
          map (\<lambda>(i, m). if i = mid then (i, panel_payload w) else (i, m)) (channel_messages w),
        store_queries := store_queries w + 3\<rparr>"
    unfolding w1 by (rule upsert_edit [OF ch meta mid])
  have ids: "fst ` set (channel_messages w1) = fst ` set (channel_messages w)"
    using ids_edit [of mid "panel_payload w" "channel_messages w"] by (simp add: e)
  have f1: "channel_text w1" by (simp add: e ch)
  have f2: "map_of (fridge_meta w1) ''panel_message_id'' = Some (Some mid)" by (simp add: e meta)
  have f3: "mid \<in> fst ` set (channel_messages w1)" using mid(2) ids by simp
  have f4: "fridge_slots w1 = fridge_slots (freeExpiredSlots w)" by (simp add: e)
  have f5: "db_now w1 = db_now w" "js_now w1 = js_now w" by (simp_all add: e)
  have cm: "channel_messages w1 =
      map (\<lambda>(i, m). if i = mid then (i, panel_payload w) else (i, m)) (channel_messages w)"
    by (simp add: e)
  have f6: "map (\<lambda>(i, m). if i = mid then (i, panel_payload w) else (i, m))
                   (channel_messages w1) = channel_messages w1"
    unfolding cm by (rule edit_twice)
  note again = upsert_again [OF f1 f2 mid(1) f3 f4 f5 f6]
  have m1: "map_of (channel_messages w1) mid = Some (panel_payload w)"
    using mid(2) by (simp add: e map_of_edit)
  have "fst (getMeta ''panel_message_id'' w1) = Some mid"
    by (simp add: getMeta_fst f2)
  moreover have "map_of (channel_messages w2) mid = Some (panel_payload w1)"
    using again m1 by (simp add: w2)
  moreover have "length (channel_messages w1) \<le> Suc (length (channel_messages w))"
    by (simp add: cm)
  moreover have "channel_messages w \<noteq> []"
    using mid(2) by auto
  ultimately show ?thesis
    using again m1 mid(1) upsert_later [OF f1 f2 mid(1) f3, where a = a and b = b] by (auto simp: w2)
next
  case False
  let ?mid = "dec_digits (next_snowflake w)"
  have e: "w1 = (freeExpiredSlots w)
       \<lparr>fridge_meta := AList.update ''panel_message_id'' (Some ?mid) (fridge_meta w),
        channel_messages := channel_messages w @ [(?mid, panel_payload w)],
        next_snowflake := Suc (next_snowflake w),
        store_queries := store_queries w + 4\<rparr>"
    unfolding w1 by (rule upsert_send [OF ch False])
  have f1: "channel_text w1" by (simp add: e ch)
  have f2: "map_of (fridge_meta w1) ''panel_message_id'' = Some (Some ?mid)"
    by (simp add: e update_conv')
  have f3: "?mid \<in> fst ` set (channel_messages w1)" by (simp add: e)
  have f4: "fridge_slots w1 = fridge_slots (freeExpiredSlots w)" by (simp add: e)
  have f5: "db_now w1 = db_now w" "js_now w1 = js_now w" by (simp_all add: e)
  have cm: "channel_messages w1 = channel_messages w @ [(?mid, panel_payload w)]"
    by (simp add: e)
  have f6: "map (\<lambda>(i, m). if i = ?mid then (i, panel_payload w) else (i, m))
                   (channel_messages w1) = channel_messages w1"
    unfolding cm by (rule edit_fresh [OF fresh])
  note again = upsert_again [OF f1 f2 dec_digits_nonempty f3 f4 f5 f6]
  have m1: "map_of (channel_messages w1) ?mid = Some (panel_payload w)"
    using map_of_snoc_fresh [OF fresh] by (simp add: e)
  have "fst (getMeta ''panel_message_id'' w1) = Some ?mid"
    by (simp add: getMeta_fst f2)
  moreover have "map_of (channel_messages w2) ?mid = Some (panel_payload w1)"
    using again m1 by (simp add: w2)
  moreover have "length (channel_messages w1) \<le> Suc (length (channel_messages w))"
    by (simp add: cm)
  moreover have "channel_messages w = [] \<longrightarrow> length (channel_messages w2) = 1"
    by (simp add: w2 again(2) cm)
  ultimately show ?thesis
    using again m1 upsert_later [OF f1 f2 dec_digits_nonempty f3, where a = a and b = b] by (auto simp: w2)
qed

theorem upsertPanelMessage_twice_witness:
  "channel_text example_world \<and>
   dec_digits (next_snowflake example_world) \<notin> fst ` set (channel_messages example_world) \<and>
   channel_messages (upsertPanelMessage (upsertPanelMessage example_world)) =
     channel_messages (upsertPanelMessage example_world) \<and>
   length (channel_messages (upsertPanelMessage (upsertPanelMessage example_world))) = 1"
proof -
  have ch: "channel_text example_world"
    by (simp add: example_world_eq)
  have empty: "channel_messages example_world = []"
    by (simp add: example_world_eq)
  then have fresh: "dec_digits (next_snowflake example_world) \<notin>
      fst ` set (channel_messages example_world)"
    by simp
  from upsertPanelMessage_twice [OF ch fresh refl refl] ch fresh empty show ?thesis
    by blast
qed

section \<open>Validation of the selected slot\<close>

lemma slot_invalid_iff:
  "slot_invalid v = (\<not> (\<exists>k. v = Finite (of_int k) \<and> 1 \<le> k \<and> k \<le> 24))"
proof (cases v)
  case NaN
  then show ?thesis by (simp add: slot_invalid_def js_isInteger_def)
next
  case (Infinity b)
  then show ?thesis by (simp add: slot_invalid_def js_isInteger_def)
next
  case (Finite q)
  show ?thesis
  proof (cases "of_int \<lfloor>q\<rfloor> = q")
    case True
    then obtain k where q: "q = of_int k" by metis
    with Finite show ?thesis
      by (auto simp: slot_invalid_def js_isInteger_def js_less_def js_greater_def SLOT_COUNT_def)
  next
    case False
    then have "\<not> (\<exists>k. q = of_int k)" by auto
    with Finite False show ?thesis
      by (simp add: slot_invalid_def js_isInteger_def)
  qed
qed

text \<open>
  Claim C9.  The test of the two select-menu handlers rejects exactly the values that are
  not an integer from 1 to 24.  On a rejected value both handlers answer "Slot invalid." and
  return the world untouched: no row, no metadata, no message has changed, and no query has
  been sent to the store.
\<close>

theorem invalid_slot_rejected:
  "slot_invalid v = (\<not> (\<exists>k. v = Finite (of_int k) \<and> 1 \<le> k \<and> k \<le> 24)) \<and>
   (slot_invalid v \<longrightarrow>
      fridge_pick_slot v u n w = (SlotInvalid, w) \<and>
      fridge_release_pick v u w = (SlotInvalid, w))"
  using slot_invalid_iff [of v]
  by (simp add: fridge_pick_slot_def fridge_release_pick_def)

theorem invalid_slot_rejected_witness:
  "slot_invalid (Finite 25) \<and> slot_invalid (Finite (1 / 2)) \<and> slot_invalid NaN \<and>
   \<not> slot_invalid (Finite 24) \<and>
   fridge_pick_slot (Finite 25) ''alice'' ''Alice'' example_world = (SlotInvalid, example_world) \<and>
   fridge_release_pick NaN ''alice'' example_world = (SlotInvalid, example_world)"
proof -
  have a: "slot_invalid (Finite 25)"
    by (simp add: slot_invalid_def js_isInteger_def js_less_def js_greater_def SLOT_COUNT_def)
  have b: "slot_invalid (Finite (1 / 2))"
    by (simp add: slot_invalid_def js_isInteger_def js_less_def)
  have c: "slot_invalid NaN"
    by (simp add: slot_invalid_def js_isInteger_def)
  have d: "\<not> slot_invalid (Finite 24)"
    by (simp add: slot_invalid_def js_isInteger_def js_less_def js_greater_def SLOT_COUNT_def)
  from invalid_slot_rejected [of "Finite 25" "''alice''" "''Alice''" example_world]
    invalid_slot_rejected [of NaN "''alice''" "''Alice''" example_world] a b c d
  show ?thesis by blast
qed

end
